theory Spec2Isabelle
  imports Main "HOL-Library.Word"
begin

section \<open>Values, errors and dictionaries\<close>

text \<open>
  The serializers of \<^verbatim>\<open>backend/api/serializers.py\<close> work on parsed JSON request bodies.
  A body is a Python dict; its values are \<^verbatim>\<open>None\<close>, booleans, integers, strings, lists and
  dicts (JSON numbers with a fraction are left out). A dict is kept as an association
  list in insertion order, as Python keeps it.
\<close>

datatype pyval =
    PNone
  | PBool bool
  | PInt int
  | PStr string
  | PList "pyval list"
  | PDict "(string \<times> pyval) list"

type_synonym pydict = "(string \<times> pyval) list"

type_synonym byte = "8 word"

text \<open>A Django \<^verbatim>\<open>ContentFile\<close> / uploaded file: a name and the bytes.\<close>

record content_file =
  cf_name :: string
  cf_content :: "byte list"

text \<open>What a field can be handed: a JSON value, or a file object (an upload of a multipart
  request, a \<^verbatim>\<open>ContentFile\<close>).\<close>

datatype field_data = Json pyval | FileObj content_file

text \<open>
  The detail of a \<^verbatim>\<open>ValidationError\<close>: an error code, a list of per-item details (a list
  serializer), or a dict of per-field details.
\<close>

datatype detail =
    Code string
  | Items "detail list"
  | Fields "(string \<times> detail) list"

text \<open>
  The exceptions that can leave this module. \<^verbatim>\<open>binascii.Error\<close> is a subclass of
  \<^verbatim>\<open>ValueError\<close> in Python; it is kept apart here to tell the two raise sites apart.
\<close>

datatype error =
    KeyError
  | TypeError
  | ValueError
  | BinasciiError
  | AttributeError
  | AssertionError
  | NotAuthenticated
  | IntegrityError
  | MultipleObjectsReturned
  | ValidationError detail

text \<open>\<^verbatim>\<open>d.get(k)\<close>, \<^verbatim>\<open>d.pop(k)\<close> and \<^verbatim>\<open>d[k] = v\<close> on a dict.\<close>

definition dict_get :: "(string \<times> 'v) list \<Rightarrow> string \<Rightarrow> 'v option" where
  "dict_get d k = map_of d k"

definition dict_pop :: "(string \<times> 'v) list \<Rightarrow> string \<Rightarrow> error + ('v \<times> (string \<times> 'v) list)" where
  "dict_pop d k =
     (case map_of d k of
        None \<Rightarrow> Inl KeyError
      | Some v \<Rightarrow> Inr (v, filter (\<lambda>kv. fst kv \<noteq> k) d))"

fun dict_set :: "(string \<times> 'v) list \<Rightarrow> string \<Rightarrow> 'v \<Rightarrow> (string \<times> 'v) list" where
  "dict_set [] k v = [(k, v)]"
| "dict_set ((k', v') # d) k v = (if k' = k then (k, v) # d else (k', v') # dict_set d k v)"

text \<open>
  Iteration \<^verbatim>\<open>for x in v\<close>: a list gives its items, a string its characters, a dict its
  keys; the other values are not iterable.
\<close>

fun py_iter :: "pyval \<Rightarrow> error + pyval list" where
  "py_iter (PList xs) = Inr xs"
| "py_iter (PStr s) = Inr (map (\<lambda>c. PStr [c]) s)"
| "py_iter (PDict kvs) = Inr (map (\<lambda>kv. PStr (fst kv)) kvs)"
| "py_iter PNone = Inl TypeError"
| "py_iter (PBool b) = Inl TypeError"
| "py_iter (PInt n) = Inl TypeError"

section \<open>RecipeCreateSerializer.to\_internal\_value\<close>

text \<open>
  \<^verbatim>\<open>
  def to_internal_value(self, data):
      tags = data.pop('tags')
      data['tags'] = [{'id': tag} for tag in tags]
      return super().to_internal_value(data)
  \<close>
  The superclass method is the argument \<open>super_to_internal_value\<close>.
\<close>

definition wrap_tag :: "pyval \<Rightarrow> pyval" where
  "wrap_tag tag = PDict [(''id'', tag)]"

definition RecipeCreateSerializer_to_internal_value ::
  "(pydict \<Rightarrow> error + 'a) \<Rightarrow> pydict \<Rightarrow> error + 'a" where
  "RecipeCreateSerializer_to_internal_value super_to_internal_value data =
     (case dict_pop data ''tags'' of
        Inl e \<Rightarrow> Inl e
      | Inr (tags, data1) \<Rightarrow>
          (case py_iter tags of
             Inl e \<Rightarrow> Inl e
           | Inr items \<Rightarrow>
               super_to_internal_value (dict_set data1 ''tags'' (PList (map wrap_tag items)))))"

section \<open>The image decoder: Base64ImageField\<close>

text \<open>
  \<^verbatim>\<open>str.startswith\<close> and \<^verbatim>\<open>str.split(sep)\<close> (non-overlapping occurrences, left to right).
  Both separators used below are non-empty; Python refuses an empty one, here it splits
  nothing.
\<close>

definition startswith :: "string \<Rightarrow> string \<Rightarrow> bool" where
  "startswith s p = (take (length p) s = p)"

function str_split_from :: "string \<Rightarrow> string \<Rightarrow> string \<Rightarrow> string list" where
  "str_split_from sep cur [] = [cur]"
| "str_split_from sep cur (c # cs) =
     (if sep \<noteq> [] \<and> startswith (c # cs) sep
      then cur # str_split_from sep [] (drop (length sep) (c # cs))
      else str_split_from sep (cur @ [c]) cs)"
  by pat_completeness auto
termination
  by (relation "measure (\<lambda>(sep, cur, s). length s)") auto

definition str_split :: "string \<Rightarrow> string \<Rightarrow> string list" where
  "str_split sep s = str_split_from sep [] s"

text \<open>
  \<^verbatim>\<open>base64.b64decode(s)\<close> with its default \<^verbatim>\<open>validate=False\<close>, as the standard library
  documents and implements it (\<^verbatim>\<open>binascii.a2b_base64\<close>): a string with a non-ASCII character
  is a \<^verbatim>\<open>ValueError\<close>; characters outside the alphabet are discarded; \<^verbatim>\<open>=\<close> ends the input
  once it completes a quad that holds at least two data characters, and is discarded
  otherwise; input that ends inside a quad is a \<^verbatim>\<open>binascii.Error\<close>.
  \<open>quad_pos\<close> counts the data characters of the current quad, \<open>leftchar\<close> holds the bits
  not yet written, \<open>pads\<close> the padding characters seen since the last data character.
\<close>

definition b64_alphabet :: string where
  "b64_alphabet = ''ABCDEFGHIJKLMNOPQRSTUVWXYZabcdefghijklmnopqrstuvwxyz0123456789+/''"

fun index_of :: "'a list \<Rightarrow> 'a \<Rightarrow> nat option" where
  "index_of [] x = None"
| "index_of (y # ys) x = (if x = y then Some 0 else map_option Suc (index_of ys x))"

definition b64_value :: "char \<Rightarrow> nat option" where
  "b64_value c = index_of b64_alphabet c"

fun a2b_base64 :: "nat \<Rightarrow> nat \<Rightarrow> nat \<Rightarrow> byte list \<Rightarrow> string \<Rightarrow> error + byte list" where
  "a2b_base64 quad_pos leftchar pads out [] =
     (if quad_pos = 0 then Inr out else Inl BinasciiError)"
| "a2b_base64 quad_pos leftchar pads out (c # cs) =
     (if c = CHR ''='' then
        (if 2 \<le> quad_pos \<and> 4 \<le> quad_pos + (pads + 1) then Inr out
         else a2b_base64 quad_pos leftchar (if 2 \<le> quad_pos then pads + 1 else pads) out cs)
      else
        (case b64_value c of
           None \<Rightarrow> a2b_base64 quad_pos leftchar pads out cs
         | Some v \<Rightarrow>
             (if quad_pos = 0 then a2b_base64 1 v 0 out cs
              else if quad_pos = 1 then
                a2b_base64 2 (v mod 16) 0 (out @ [of_nat (leftchar * 4 + v div 16)]) cs
              else if quad_pos = 2 then
                a2b_base64 3 (v mod 4) 0 (out @ [of_nat (leftchar * 16 + v div 4)]) cs
              else a2b_base64 0 0 0 (out @ [of_nat (leftchar * 64 + v)]) cs)))"

definition b64decode :: "string \<Rightarrow> error + byte list" where
  "b64decode s =
     (if list_ex (\<lambda>c. 128 \<le> (of_char c :: nat)) s then Inl ValueError
      else a2b_base64 0 0 0 [] s)"

text \<open>
  The standard encoding (RFC 4648, \<^verbatim>\<open>base64.b64encode\<close>): three bytes give four characters,
  a last group of one or two bytes is padded with \<^verbatim>\<open>=\<close>. A valid base64 payload is the
  encoding of some bytes.
\<close>

definition b64_char :: "nat \<Rightarrow> char" where
  "b64_char n = b64_alphabet ! n"

fun b64encode :: "byte list \<Rightarrow> string" where
  "b64encode [] = []"
| "b64encode [a] =
     [b64_char (unat a div 4), b64_char (unat a mod 4 * 16), CHR ''='', CHR ''='']"
| "b64encode [a, b] =
     [b64_char (unat a div 4), b64_char (unat a mod 4 * 16 + unat b div 16),
      b64_char (unat b mod 16 * 4), CHR ''='']"
| "b64encode (a # b # c # bs) =
     [b64_char (unat a div 4), b64_char (unat a mod 4 * 16 + unat b div 16),
      b64_char (unat b mod 16 * 4 + unat c div 64), b64_char (unat c mod 64)] @ b64encode bs"

text \<open>
  What running a field gives: a validated value, a \<^verbatim>\<open>ValidationError\<close> with its detail
  (collected by the enclosing serializer), \<^verbatim>\<open>SkipField\<close>, or any other exception, which
  the serializer does not catch.
\<close>

datatype 'a outcome = Valid 'a | Invalid detail | Skip | Raise error

text \<open>
  \<^verbatim>\<open>
  class Base64ImageField(serializers.ImageField):
      def to_internal_value(self, data):
          if isinstance(data, str) and data.startswith('data:image'):
              format, imgstr = data.split(';base64,')
              ext = format.split('/')[-1]
              data = ContentFile(base64.b64decode(imgstr), name='temp.' + ext)
          return super().to_internal_value(data)
  \<close>
  Unpacking into two names raises \<^verbatim>\<open>ValueError\<close> unless the split has exactly two parts.
  The parent \<^verbatim>\<open>ImageField.to_internal_value\<close> (file checks and image verification of
  the framework) is the argument \<open>super_to_internal_value\<close>.
\<close>

definition Base64ImageField_to_internal_value ::
  "(field_data \<Rightarrow> content_file outcome) \<Rightarrow> field_data \<Rightarrow> content_file outcome" where
  "Base64ImageField_to_internal_value super_to_internal_value data =
     (case data of
        Json (PStr s) \<Rightarrow>
          (if startswith s ''data:image'' then
             (case str_split '';base64,'' s of
                [format, imgstr] \<Rightarrow>
                  (let ext = last (str_split ''/'' format) in
                   case b64decode imgstr of
                     Inl e \<Rightarrow> Raise e
                   | Inr bytes \<Rightarrow>
                       super_to_internal_value
                         (FileObj \<lparr>cf_name = ''temp.'' @ ext, cf_content = bytes\<rparr>))
              | _ \<Rightarrow> Raise ValueError)
           else super_to_internal_value data)
      | _ \<Rightarrow> super_to_internal_value data)"

text \<open>The test of the \<^verbatim>\<open>if\<close>: a string that starts with \<^verbatim>\<open>data:image\<close>.\<close>

definition is_data_uri :: "field_data \<Rightarrow> bool" where
  "is_data_uri data = (case data of Json (PStr s) \<Rightarrow> startswith s ''data:image'' | _ \<Rightarrow> False)"


text \<open>
  The checks of the framework's \<^verbatim>\<open>FileField.to_internal_value\<close>: a value with no name and
  size is \<^verbatim>\<open>invalid\<close>, a file needs a name and content. \<^verbatim>\<open>ImageField\<close> adds an image
  verification, which is not modelled: the examples below use the file checks alone as
  the parent.
\<close>

definition FileField_to_internal_value :: "field_data \<Rightarrow> content_file outcome" where
  "FileField_to_internal_value data =
     (case data of
        Json v \<Rightarrow> Invalid (Code ''invalid'')
      | FileObj f \<Rightarrow>
          (if cf_name f = [] then Invalid (Code ''no_name'')
           else if cf_content f = [] then Invalid (Code ''empty'')
           else Valid f))"

section \<open>Users and the requester\<close>

text \<open>
  A user as \<^verbatim>\<open>UserSerializer.Meta.fields\<close> reads it: \<^verbatim>\<open>email\<close>, \<^verbatim>\<open>id\<close>, \<^verbatim>\<open>username\<close>,
  \<^verbatim>\<open>first_name\<close>, \<^verbatim>\<open>last_name\<close>, \<^verbatim>\<open>is_subscribed\<close>, \<^verbatim>\<open>avatar\<close> (the URL of the stored image,
  if any). \<^verbatim>\<open>request.user\<close> is a user or the framework's \<^verbatim>\<open>AnonymousUser\<close>, and
  \<^verbatim>\<open>self.context.get('request')\<close> is \<^verbatim>\<open>None\<close> when the serializer was built without a
  request.
\<close>

record user =
  user_pk :: int
  email :: string
  username :: string
  first_name :: string
  last_name :: string
  is_subscribed :: bool
  avatar :: "string option"

datatype requester = AnonymousUser | Authenticated user

record request =
  request_user :: requester

fun is_authenticated :: "requester \<Rightarrow> bool" where
  "is_authenticated AnonymousUser = False"
| "is_authenticated (Authenticated u) = True"

text \<open>The model serializer's rendering of the fields of \<^verbatim>\<open>UserSerializer.Meta.fields\<close>, in order.\<close>

definition UserSerializer_to_representation :: "user \<Rightarrow> pydict" where
  "UserSerializer_to_representation instance =
     [(''email'', PStr (email instance)),
      (''id'', PInt (user_pk instance)),
      (''username'', PStr (username instance)),
      (''first_name'', PStr (first_name instance)),
      (''last_name'', PStr (last_name instance)),
      (''is_subscribed'', PBool (is_subscribed instance)),
      (''avatar'', (case avatar instance of None \<Rightarrow> PNone | Some url \<Rightarrow> PStr url))]"

text \<open>
  \<^verbatim>\<open>
  def to_representation(self, instance):
      request = self.context.get('request')
      if request.user.is_authenticated:
          return super().to_representation(instance)
      raise NotAuthenticated
  \<close>
  With no request in the context, \<^verbatim>\<open>request.user\<close> is an attribute access on \<^verbatim>\<open>None\<close>.
\<close>

definition UserMeSerializer_to_representation :: "request option \<Rightarrow> user \<Rightarrow> error + pydict" where
  "UserMeSerializer_to_representation context instance =
     (case context of
        None \<Rightarrow> Inl AttributeError
      | Some request \<Rightarrow>
          (if is_authenticated (request_user request)
           then Inr (UserSerializer_to_representation instance)
           else Inl NotAuthenticated))"

section \<open>The entity store\<close>

text \<open>
  Modelled from the spec: the model classes of \<^verbatim>\<open>recipes.models\<close> are not part of the
  sources. The tables below are those the serializers use, as section 3 of the
  specification describes them: Tag (id, name, unique slug), Ingredient (id, name,
  measurement unit), AmountOfIngredient (an ingredient reference and an amount), Recipe
  (id, author and the scalar fields the serializer validated), and the join rows
  TagInRecipe and IngredientInRecipe. A table is the list of its rows in insertion
  order; a new row gets a primary key above every key of its table.
\<close>

record tag =
  tag_pk :: int
  tag_name :: string
  tag_slug :: string

record ingredient =
  ingredient_pk :: int
  ingredient_name :: string
  measurement_unit :: string

record amount_of_ingredient =
  aoi_pk :: int
  aoi_ingredient :: int
  aoi_amount :: int

text \<open>
  Validated values: strings, integers, booleans and files for the scalar fields, and the
  two nested lists. An element of \<open>VTags\<close> stands for \<^verbatim>\<open>{'id': <Tag>}\<close>, an element
  \<open>(i, a)\<close> of \<open>VIngredients\<close> for \<^verbatim>\<open>{'ingredient': {'id': <Ingredient i>}, 'amount': a}\<close>,
  with \<open>a = None\<close> when the entry holds no amount.
\<close>

datatype vval =
    VStr string
  | VInt int
  | VBool bool
  | VFile content_file
  | VTags "tag list"
  | VIngredients "(ingredient \<times> int option) list"

type_synonym validated_data = "(string \<times> vval) list"

record recipe =
  recipe_pk :: int
  recipe_author :: int
  recipe_fields :: validated_data

record tag_in_recipe =
  tir_pk :: int
  tir_tag :: int
  tir_recipe :: int

record ingredient_in_recipe =
  iir_pk :: int
  iir_amount_of_ingredient :: int
  iir_recipe :: int

record store =
  Tag_objects :: "tag list"
  Ingredient_objects :: "ingredient list"
  Recipe_objects :: "recipe list"
  TagInRecipe_objects :: "tag_in_recipe list"
  AmountOfIngredient_objects :: "amount_of_ingredient list"
  IngredientInRecipe_objects :: "ingredient_in_recipe list"

definition next_pk :: "int list \<Rightarrow> int" where
  "next_pk pks = foldr max pks 0 + 1"

text \<open>
  The code opens no transaction, and the framework's default is to commit each query as
  it runs. So every operation returns the store as it left it, also when it fails:
  a result is the pair of the outcome and the store.
\<close>

text \<open>\<^verbatim>\<open>Recipe.objects.create(author=request.user, **validated_data)\<close>.\<close>

definition Recipe_objects_create :: "int \<Rightarrow> validated_data \<Rightarrow> store \<Rightarrow> recipe \<times> store" where
  "Recipe_objects_create author field_values s =
     (let row = \<lparr>recipe_pk = next_pk (map recipe_pk (Recipe_objects s)),
                 recipe_author = author, recipe_fields = field_values\<rparr>
      in (row, s\<lparr>Recipe_objects := Recipe_objects s @ [row]\<rparr>))"

text \<open>
  \<^verbatim>\<open>Tag.objects.get_or_create(id=pk)\<close>: the row with that key if there is one; otherwise a
  row with that key and the empty name and slug, which the unique slug refuses when
  another tag has the empty slug.
\<close>

definition Tag_objects_get_or_create :: "int \<Rightarrow> store \<Rightarrow> (error + tag) \<times> store" where
  "Tag_objects_get_or_create pk s =
     (case find (\<lambda>t. tag_pk t = pk) (Tag_objects s) of
        Some t \<Rightarrow> (Inr t, s)
      | None \<Rightarrow>
          (if list_ex (\<lambda>t. tag_slug t = []) (Tag_objects s) then (Inl IntegrityError, s)
           else
             (let row = \<lparr>tag_pk = pk, tag_name = [], tag_slug = []\<rparr>
              in (Inr row, s\<lparr>Tag_objects := Tag_objects s @ [row]\<rparr>))))"

text \<open>\<^verbatim>\<open>TagInRecipe.objects.create(tag=current_tag, recipe=recipe)\<close>.\<close>

definition TagInRecipe_objects_create :: "tag \<Rightarrow> recipe \<Rightarrow> store \<Rightarrow> store" where
  "TagInRecipe_objects_create current_tag recipe s =
     s\<lparr>TagInRecipe_objects := TagInRecipe_objects s @
         [\<lparr>tir_pk = next_pk (map tir_pk (TagInRecipe_objects s)),
           tir_tag = tag_pk current_tag, tir_recipe = recipe_pk recipe\<rparr>]\<rparr>"

text \<open>
  \<^verbatim>\<open>AmountOfIngredient.objects.get_or_create(ingredient=i, amount=a)\<close>: the one row with
  that ingredient and amount; \<^verbatim>\<open>MultipleObjectsReturned\<close> when several rows match; with no
  match a new row, which the foreign key refuses (\<^verbatim>\<open>IntegrityError\<close>) when the ingredient
  is not a row of the Ingredient table.
\<close>

definition aoi_matches :: "int \<Rightarrow> int \<Rightarrow> amount_of_ingredient \<Rightarrow> bool" where
  "aoi_matches i a row = (aoi_ingredient row = i \<and> aoi_amount row = a)"

definition AmountOfIngredient_objects_get_or_create ::
  "ingredient \<Rightarrow> int \<Rightarrow> store \<Rightarrow> (error + amount_of_ingredient) \<times> store" where
  "AmountOfIngredient_objects_get_or_create i a s =
     (case filter (aoi_matches (ingredient_pk i) a) (AmountOfIngredient_objects s) of
        [] \<Rightarrow>
          (if ingredient_pk i \<in> set (map ingredient_pk (Ingredient_objects s)) then
             (let row = \<lparr>aoi_pk = next_pk (map aoi_pk (AmountOfIngredient_objects s)),
                         aoi_ingredient = ingredient_pk i, aoi_amount = a\<rparr>
              in (Inr row, s\<lparr>AmountOfIngredient_objects := AmountOfIngredient_objects s @ [row]\<rparr>))
           else (Inl IntegrityError, s))
      | [row] \<Rightarrow> (Inr row, s)
      | _ \<Rightarrow> (Inl MultipleObjectsReturned, s))"

text \<open>\<^verbatim>\<open>IngredientInRecipe.objects.create(amount_of_ingredient=current_ingredient, recipe=recipe)\<close>.\<close>

definition IngredientInRecipe_objects_create ::
  "amount_of_ingredient \<Rightarrow> recipe \<Rightarrow> store \<Rightarrow> store" where
  "IngredientInRecipe_objects_create current_ingredient recipe s =
     s\<lparr>IngredientInRecipe_objects := IngredientInRecipe_objects s @
         [\<lparr>iir_pk = next_pk (map iir_pk (IngredientInRecipe_objects s)),
           iir_amount_of_ingredient = aoi_pk current_ingredient,
           iir_recipe = recipe_pk recipe\<rparr>]\<rparr>"

section \<open>RecipeCreateSerializer.create\<close>

text \<open>
  \<^verbatim>\<open>
  def create(self, validated_data):
      ingredients = validated_data.pop('ingredients')
      tags = validated_data.pop('tags')
      request = self.context.get('request')

      recipe = Recipe.objects.create(author=request.user, **validated_data)
      recipe.save()

      for tag in tags:
          current_tag, status = Tag.objects.get_or_create(id=tag['id'].pk)
          TagInRecipe.objects.create(tag=current_tag, recipe=recipe)

      for ingredient in ingredients:
          current_ingredient, status = (
              AmountOfIngredient.objects.get_or_create(
                  ingredient=ingredient['ingredient']['id'],
                  amount=ingredient['amount']))
          IngredientInRecipe.objects.create(
              amount_of_ingredient=current_ingredient, recipe=recipe)
      return recipe
  \<close>
  The two loops are the two recursive functions. \<^verbatim>\<open>ingredient['amount']\<close> is a \<^verbatim>\<open>KeyError\<close>
  for an entry with no amount. Assigning \<^verbatim>\<open>AnonymousUser\<close> to the author is refused with
  \<^verbatim>\<open>ValueError\<close> before any query. Validation gives \<^verbatim>\<open>tags\<close> and \<^verbatim>\<open>ingredients\<close> as the two
  nested lists; a value of another shape under these keys is answered with \<^verbatim>\<open>TypeError\<close>
  where the loop would start.
\<close>

fun create_tags :: "recipe \<Rightarrow> tag list \<Rightarrow> store \<Rightarrow> (error + unit) \<times> store" where
  "create_tags recipe [] s = (Inr (), s)"
| "create_tags recipe (tag # tags) s =
     (case Tag_objects_get_or_create (tag_pk tag) s of
        (Inl e, s1) \<Rightarrow> (Inl e, s1)
      | (Inr current_tag, s1) \<Rightarrow>
          create_tags recipe tags (TagInRecipe_objects_create current_tag recipe s1))"

fun create_ingredients ::
  "recipe \<Rightarrow> (ingredient \<times> int option) list \<Rightarrow> store \<Rightarrow> (error + unit) \<times> store" where
  "create_ingredients recipe [] s = (Inr (), s)"
| "create_ingredients recipe ((i, None) # ingredients) s = (Inl KeyError, s)"
| "create_ingredients recipe ((i, Some a) # ingredients) s =
     (case AmountOfIngredient_objects_get_or_create i a s of
        (Inl e, s1) \<Rightarrow> (Inl e, s1)
      | (Inr current_ingredient, s1) \<Rightarrow>
          create_ingredients recipe ingredients
            (IngredientInRecipe_objects_create current_ingredient recipe s1))"

definition RecipeCreateSerializer_create ::
  "request option \<Rightarrow> validated_data \<Rightarrow> store \<Rightarrow> (error + recipe) \<times> store" where
  "RecipeCreateSerializer_create context validated_data s =
     (case dict_pop validated_data ''ingredients'' of
        Inl e \<Rightarrow> (Inl e, s)
      | Inr (ingredients, validated_data1) \<Rightarrow>
     (case dict_pop validated_data1 ''tags'' of
        Inl e \<Rightarrow> (Inl e, s)
      | Inr (tags, validated_data2) \<Rightarrow>
     (case context of
        None \<Rightarrow> (Inl AttributeError, s)
      | Some request \<Rightarrow>
     (case request_user request of
        AnonymousUser \<Rightarrow> (Inl ValueError, s)
      | Authenticated author \<Rightarrow>
     (case Recipe_objects_create (user_pk author) validated_data2 s of
        (recipe, s1) \<Rightarrow>
     (case tags of
        VTags tag_list \<Rightarrow>
          (case create_tags recipe tag_list s1 of
             (Inl e, s2) \<Rightarrow> (Inl e, s2)
           | (Inr u, s2) \<Rightarrow>
               (case ingredients of
                  VIngredients ingredient_list \<Rightarrow>
                    (case create_ingredients recipe ingredient_list s2 of
                       (Inl e, s3) \<Rightarrow> (Inl e, s3)
                     | (Inr u, s3) \<Rightarrow> (Inr recipe, s3))
                | _ \<Rightarrow> (Inl TypeError, s2)))
      | _ \<Rightarrow> (Inl TypeError, s1)))))))"

section \<open>Validation by the framework's serializers\<close>

text \<open>
  What the sources leave open is gathered in one record: how the runtime reads a string
  as an integer (\<^verbatim>\<open>int(s)\<close>, for a primary key given as a string), how the fields that the
  model serializers derive from the Recipe and AmountOfIngredient models validate and
  render (\<^verbatim>\<open>recipes.models\<close> is not part of the sources; a field that is read-only always
  skips), and the image library's verification of a file.
\<close>

record env =
  int_of_str :: "string \<Rightarrow> int option"
  model_field :: "string \<Rightarrow> pyval option \<Rightarrow> vval outcome"
  amount_field :: "pyval option \<Rightarrow> int outcome"
  verify_image :: "content_file \<Rightarrow> bool"
  render_field :: "string \<Rightarrow> recipe \<Rightarrow> pyval"

text \<open>
  A \<^verbatim>\<open>ValidationError\<close> raised while a field runs is caught by the enclosing serializer
  and collected; any other exception goes through.
\<close>

fun catch :: "error + 'a \<Rightarrow> 'a outcome" where
  "catch (Inr v) = Valid v"
| "catch (Inl (ValidationError d)) = Invalid d"
| "catch (Inl e) = Raise e"

text \<open>\<^verbatim>\<open>validate_empty_values\<close> of a required field that does not allow \<^verbatim>\<open>None\<close>.\<close>

definition required_value :: "pyval option \<Rightarrow> detail + pyval" where
  "required_value v =
     (case v of
        None \<Rightarrow> Inl (Code ''required'')
      | Some PNone \<Rightarrow> Inl (Code ''null'')
      | Some x \<Rightarrow> Inr x)"

text \<open>
  \<^verbatim>\<open>PrimaryKeyRelatedField.to_internal_value\<close>: \<^verbatim>\<open>queryset.get(pk=data)\<close>, where a missing
  row is \<^verbatim>\<open>does_not_exist\<close> and a boolean, or a value the key cannot be read from
  (\<^verbatim>\<open>TypeError\<close>, \<^verbatim>\<open>ValueError\<close>), is \<^verbatim>\<open>incorrect_type\<close>.
\<close>

definition queryset_get :: "('r \<Rightarrow> int) \<Rightarrow> 'r list \<Rightarrow> int \<Rightarrow> detail + 'r" where
  "queryset_get pk queryset n =
     (case find (\<lambda>r. pk r = n) queryset of
        None \<Rightarrow> Inl (Code ''does_not_exist'')
      | Some r \<Rightarrow> Inr r)"

definition PrimaryKeyRelatedField_to_internal_value ::
  "(string \<Rightarrow> int option) \<Rightarrow> ('r \<Rightarrow> int) \<Rightarrow> 'r list \<Rightarrow> pyval \<Rightarrow> detail + 'r" where
  "PrimaryKeyRelatedField_to_internal_value to_int pk queryset data =
     (case data of
        PInt n \<Rightarrow> queryset_get pk queryset n
      | PStr s \<Rightarrow>
          (case to_int s of
             None \<Rightarrow> Inl (Code ''incorrect_type'')
           | Some n \<Rightarrow> queryset_get pk queryset n)
      | PNone \<Rightarrow> Inl (Code ''does_not_exist'')
      | PBool b \<Rightarrow> Inl (Code ''incorrect_type'')
      | PList xs \<Rightarrow> Inl (Code ''incorrect_type'')
      | PDict d \<Rightarrow> Inl (Code ''incorrect_type''))"

text \<open>
  \<^verbatim>\<open>
  class TagsInRecipeSerializer(serializers.ModelSerializer):
      id = serializers.PrimaryKeyRelatedField(queryset=Tag.objects.all(), many=False)
      class Meta:
          model = Tag
          fields = ('id', 'name', 'slug')
          read_only_fields = ('name', 'slug')
  \<close>
  Validating one item: it must be a dict, and its \<^verbatim>\<open>id\<close>, the only writable field, must be
  the key of a Tag row. The validated item \<^verbatim>\<open>{'id': <Tag>}\<close> is given as the tag.
\<close>

definition TagsInRecipeSerializer_run_validation ::
  "env \<Rightarrow> store \<Rightarrow> pyval \<Rightarrow> error + tag" where
  "TagsInRecipeSerializer_run_validation e s item =
     (case item of
        PDict d \<Rightarrow>
          (case required_value (dict_get d ''id'') of
             Inl x \<Rightarrow> Inl (ValidationError (Fields [(''id'', x)]))
           | Inr v \<Rightarrow>
               (case PrimaryKeyRelatedField_to_internal_value (int_of_str e) tag_pk
                       (Tag_objects s) v of
                  Inl x \<Rightarrow> Inl (ValidationError (Fields [(''id'', x)]))
                | Inr t \<Rightarrow> Inr t))
      | PNone \<Rightarrow> Inl (ValidationError (Code ''null''))
      | _ \<Rightarrow> Inl (ValidationError (Fields [(''non_field_errors'', Code ''invalid'')])))"

text \<open>
  \<^verbatim>\<open>
  class IngredientInRecipeSerializer(serializers.ModelSerializer):
      id = serializers.PrimaryKeyRelatedField(
          queryset=Ingredient.objects.all(), many=False, source='ingredient.id')
      name = serializers.ReadOnlyField(source='ingredient.name')
      measurement_unit = serializers.ReadOnlyField(source='ingredient.measurement_unit')
      class Meta:
          model = AmountOfIngredient
          fields = ('id', 'name', 'measurement_unit', 'amount')
  \<close>
  The writable fields are \<^verbatim>\<open>id\<close> and the model's \<^verbatim>\<open>amount\<close>, run in this order; their
  validation errors are collected, another exception of the amount field goes through.
\<close>

definition IngredientInRecipeSerializer_run_validation ::
  "env \<Rightarrow> store \<Rightarrow> pyval \<Rightarrow> error + (ingredient \<times> int option)" where
  "IngredientInRecipeSerializer_run_validation e s item =
     (case item of
        PDict d \<Rightarrow>
          (let id_result =
                 (case required_value (dict_get d ''id'') of
                    Inl x \<Rightarrow> Inl x
                  | Inr v \<Rightarrow> PrimaryKeyRelatedField_to_internal_value (int_of_str e)
                              ingredient_pk (Ingredient_objects s) v);
               id_errors = (case id_result of Inl x \<Rightarrow> [(''id'', x)] | Inr i \<Rightarrow> [])
           in case amount_field e (dict_get d ''amount'') of
                Raise err \<Rightarrow> Inl err
              | Invalid x \<Rightarrow> Inl (ValidationError (Fields (id_errors @ [(''amount'', x)])))
              | Skip \<Rightarrow>
                  (case id_result of
                     Inl x \<Rightarrow> Inl (ValidationError (Fields id_errors))
                   | Inr i \<Rightarrow> Inr (i, None))
              | Valid n \<Rightarrow>
                  (case id_result of
                     Inl x \<Rightarrow> Inl (ValidationError (Fields id_errors))
                   | Inr i \<Rightarrow> Inr (i, Some n)))
      | PNone \<Rightarrow> Inl (ValidationError (Code ''null''))
      | _ \<Rightarrow> Inl (ValidationError (Fields [(''non_field_errors'', Code ''invalid'')])))"

text \<open>
  \<^verbatim>\<open>ListSerializer.to_internal_value\<close> (\<^verbatim>\<open>many=True\<close>): the data must be a list; every item is
  run through the child, a valid item adds \<^verbatim>\<open>{}\<close> to the errors, an invalid one its detail,
  and \<^verbatim>\<open>any(errors)\<close> raises them. An empty list is allowed (\<^verbatim>\<open>allow_empty\<close> is not set).
\<close>

fun run_children ::
  "(pyval \<Rightarrow> error + 'a) \<Rightarrow> pyval list \<Rightarrow> 'a list \<Rightarrow> detail list \<Rightarrow>
   error + ('a list \<times> detail list)" where
  "run_children child [] ret errors = Inr (ret, errors)"
| "run_children child (item # items) ret errors =
     (case child item of
        Inr v \<Rightarrow> run_children child items (ret @ [v]) (errors @ [Fields []])
      | Inl (ValidationError d) \<Rightarrow> run_children child items ret (errors @ [d])
      | Inl err \<Rightarrow> Inl err)"

definition ListSerializer_to_internal_value ::
  "(pyval \<Rightarrow> error + 'a) \<Rightarrow> pyval \<Rightarrow> error + 'a list" where
  "ListSerializer_to_internal_value child data =
     (case data of
        PList items \<Rightarrow>
          (case run_children child items [] [] of
             Inl err \<Rightarrow> Inl err
           | Inr (ret, errors) \<Rightarrow>
               (if list_ex (\<lambda>d. d \<noteq> Fields []) errors
                then Inl (ValidationError (Items errors))
                else Inr ret))
      | _ \<Rightarrow> Inl (ValidationError (Fields [(''non_field_errors'', Code ''not_a_list'')])))"

text \<open>
  \<^verbatim>\<open>
  def validate_ingredients(self, value):
      if not value:
          raise serializers.ValidationError
      return value
  \<close>
\<close>

definition validate_ingredients :: "'a list \<Rightarrow> error + 'a list" where
  "validate_ingredients value =
     (if value = [] then Inl (ValidationError (Code ''invalid'')) else Inr value)"

text \<open>
  The fields of \<^verbatim>\<open>RecipeCreateSerializer\<close>, each with what the serializer's loop does for
  it: \<^verbatim>\<open>field.get_value(data)\<close>, \<^verbatim>\<open>field.run_validation\<close>, then \<^verbatim>\<open>validate_<name>\<close> if the
  serializer defines it.
  \<^verbatim>\<open>
  image = Base64ImageField(required=True, allow_null=False)
  ingredients = IngredientInRecipeSerializer(many=True, required=True)
  tags = TagsInRecipeSerializer(many=True)
  \<close>
\<close>

definition tags_field :: "env \<Rightarrow> store \<Rightarrow> pydict \<Rightarrow> vval outcome" where
  "tags_field e s data =
     (case required_value (dict_get data ''tags'') of
        Inl x \<Rightarrow> Invalid x
      | Inr v \<Rightarrow>
          catch (case ListSerializer_to_internal_value
                        (TagsInRecipeSerializer_run_validation e s) v of
                   Inl err \<Rightarrow> Inl err
                 | Inr ts \<Rightarrow> Inr (VTags ts)))"

definition ingredients_field :: "env \<Rightarrow> store \<Rightarrow> pydict \<Rightarrow> vval outcome" where
  "ingredients_field e s data =
     (case required_value (dict_get data ''ingredients'') of
        Inl x \<Rightarrow> Invalid x
      | Inr v \<Rightarrow>
          catch (case ListSerializer_to_internal_value
                        (IngredientInRecipeSerializer_run_validation e s) v of
                   Inl err \<Rightarrow> Inl err
                 | Inr xs \<Rightarrow>
                     (case validate_ingredients xs of
                        Inl err \<Rightarrow> Inl err
                      | Inr ys \<Rightarrow> Inr (VIngredients ys))))"

text \<open>
  The framework's \<^verbatim>\<open>ImageField.to_internal_value\<close>: the file checks, then the image
  verification.
\<close>

definition ImageField_to_internal_value ::
  "(content_file \<Rightarrow> bool) \<Rightarrow> field_data \<Rightarrow> content_file outcome" where
  "ImageField_to_internal_value verify data =
     (case FileField_to_internal_value data of
        Valid f \<Rightarrow> (if verify f then Valid f else Invalid (Code ''invalid_image''))
      | other \<Rightarrow> other)"

definition image_field :: "env \<Rightarrow> bool \<Rightarrow> pydict \<Rightarrow> vval outcome" where
  "image_field e required data =
     (case dict_get data ''image'' of
        None \<Rightarrow> (if required then Invalid (Code ''required'') else Skip)
      | Some PNone \<Rightarrow> Invalid (Code ''null'')
      | Some v \<Rightarrow>
          map_outcome VFile
            (Base64ImageField_to_internal_value
               (ImageField_to_internal_value (verify_image e)) (Json v)))"

definition model_field_of :: "env \<Rightarrow> string \<Rightarrow> pydict \<Rightarrow> vval outcome" where
  "model_field_of e name data = model_field e name (dict_get data name)"

text \<open>
  The writable fields in the order of \<^verbatim>\<open>RecipeMetaSerializer.Meta.fields\<close>; \<^verbatim>\<open>id\<close> and the
  read-only \<^verbatim>\<open>author\<close> are not among them. \<open>image_required\<close> is \<^verbatim>\<open>True\<close> for
  \<^verbatim>\<open>RecipeCreateSerializer\<close> and \<^verbatim>\<open>False\<close> for
  \<^verbatim>\<open>
  class RecipeUpdateSerializer(RecipeCreateSerializer):
      image = Base64ImageField(required=False, allow_null=False)
  \<close>
\<close>

definition Recipe_fields ::
  "env \<Rightarrow> store \<Rightarrow> bool \<Rightarrow> (string \<times> (pydict \<Rightarrow> vval outcome)) list" where
  "Recipe_fields e s image_required =
     [(''tags'', tags_field e s),
      (''ingredients'', ingredients_field e s),
      (''is_favorited'', model_field_of e ''is_favorited''),
      (''is_in_shopping_cart'', model_field_of e ''is_in_shopping_cart''),
      (''name'', model_field_of e ''name''),
      (''image'', image_field e image_required),
      (''text'', model_field_of e ''text''),
      (''cooking_time'', model_field_of e ''cooking_time'')]"

text \<open>
  \<^verbatim>\<open>Serializer.to_internal_value\<close>, the superclass method that
  \<^verbatim>\<open>RecipeCreateSerializer.to_internal_value\<close> calls: run every field; collect the validated
  values and the validation errors; raise the errors if there are any. An exception that
  is not a validation error leaves the loop at once.
\<close>

fun run_fields ::
  "(string \<times> (pydict \<Rightarrow> vval outcome)) list \<Rightarrow> pydict \<Rightarrow> validated_data \<Rightarrow>
   (string \<times> detail) list \<Rightarrow> error + (validated_data \<times> (string \<times> detail) list)" where
  "run_fields [] data ret errors = Inr (ret, errors)"
| "run_fields (field # rest) data ret errors =
     (case snd field data of
        Raise err \<Rightarrow> Inl err
      | Invalid d \<Rightarrow> run_fields rest data ret (errors @ [(fst field, d)])
      | Skip \<Rightarrow> run_fields rest data ret errors
      | Valid v \<Rightarrow> run_fields rest data (dict_set ret (fst field) v) errors)"

definition Serializer_to_internal_value ::
  "(string \<times> (pydict \<Rightarrow> vval outcome)) list \<Rightarrow> pydict \<Rightarrow> error + validated_data" where
  "Serializer_to_internal_value field_list data =
     (case run_fields field_list data [] [] of
        Inl err \<Rightarrow> Inl err
      | Inr (ret, errors) \<Rightarrow>
          (if errors \<noteq> [] then Inl (ValidationError (Fields errors)) else Inr ret))"

definition RecipeCreateSerializer_validate :: "env \<Rightarrow> store \<Rightarrow> pydict \<Rightarrow> error + validated_data" where
  "RecipeCreateSerializer_validate e s data =
     RecipeCreateSerializer_to_internal_value
       (Serializer_to_internal_value (Recipe_fields e s True)) data"

definition RecipeUpdateSerializer_validate :: "env \<Rightarrow> store \<Rightarrow> pydict \<Rightarrow> error + validated_data" where
  "RecipeUpdateSerializer_validate e s data =
     RecipeCreateSerializer_to_internal_value
       (Serializer_to_internal_value (Recipe_fields e s False)) data"

section \<open>Requests\<close>

text \<open>
  Modelled from the spec: the views are not part of the sources. Section 2 gives the data
  flow of a request, payload, then serializer validation, then the assembly and its
  writes: a payload that fails validation reaches no write.
\<close>

definition create_recipe ::
  "env \<Rightarrow> request option \<Rightarrow> pydict \<Rightarrow> store \<Rightarrow> (error + recipe) \<times> store" where
  "create_recipe e context data s =
     (case RecipeCreateSerializer_validate e s data of
        Inl err \<Rightarrow> (Inl err, s)
      | Inr validated_data \<Rightarrow> RecipeCreateSerializer_create context validated_data s)"

text \<open>
  \<^verbatim>\<open>RecipeUpdateSerializer\<close> defines no \<^verbatim>\<open>update\<close>, so saving an update runs the framework's
  \<^verbatim>\<open>ModelSerializer.update\<close>. It starts with \<^verbatim>\<open>raise_errors_on_nested_writes\<close>, the assertion
  that the validated data holds no list or dict for a writable nested serializer (here
  \<^verbatim>\<open>tags\<close> and \<^verbatim>\<open>ingredients\<close>); otherwise it sets every validated value on the instance and
  saves it. The assertion is the one of the framework releases that go with Django 3.2,
  the version the migration names.
\<close>

definition has_nested_write :: "validated_data \<Rightarrow> bool" where
  "has_nested_write validated_data =
     list_ex (\<lambda>name. case dict_get validated_data name of
                        Some (VTags ts) \<Rightarrow> True
                      | Some (VIngredients xs) \<Rightarrow> True
                      | _ \<Rightarrow> False)
       [''tags'', ''ingredients'']"

definition ModelSerializer_update ::
  "recipe \<Rightarrow> validated_data \<Rightarrow> store \<Rightarrow> (error + recipe) \<times> store" where
  "ModelSerializer_update instance validated_data s =
     (if has_nested_write validated_data then (Inl AssertionError, s)
      else
        (let updated = instance\<lparr>recipe_fields :=
               foldl (\<lambda>fs kv. dict_set fs (fst kv) (snd kv)) (recipe_fields instance)
                 validated_data\<rparr>
         in (Inr updated,
             s\<lparr>Recipe_objects :=
                 map (\<lambda>r. if recipe_pk r = recipe_pk instance then updated else r)
                   (Recipe_objects s)\<rparr>)))"

definition update_recipe ::
  "env \<Rightarrow> recipe \<Rightarrow> pydict \<Rightarrow> store \<Rightarrow> (error + recipe) \<times> store" where
  "update_recipe e instance data s =
     (case RecipeUpdateSerializer_validate e s data of
        Inl err \<Rightarrow> (Inl err, s)
      | Inr validated_data \<Rightarrow> ModelSerializer_update instance validated_data s)"

section \<open>Rendering a recipe\<close>

text \<open>
  The representation of a recipe, field by field in the order of
  \<^verbatim>\<open>RecipeMetaSerializer.Meta.fields\<close>. The tags are rendered by \<^verbatim>\<open>TagsInRecipeSerializer\<close>
  (\<^verbatim>\<open>id\<close>, \<^verbatim>\<open>name\<close>, \<^verbatim>\<open>slug\<close>), the author by \<^verbatim>\<open>UserMeSerializer\<close>, an ingredient by
  \<^verbatim>\<open>IngredientInRecipeSerializer\<close> (\<^verbatim>\<open>id\<close>, \<^verbatim>\<open>name\<close>, \<^verbatim>\<open>measurement_unit\<close>, \<^verbatim>\<open>amount\<close>).
  Modelled from the spec: which rows a recipe's \<^verbatim>\<open>tags\<close> and \<^verbatim>\<open>ingredients\<close> are is decided
  by \<^verbatim>\<open>recipes.models\<close>; by section 3 they are the tags and the ingredient amounts that the
  join rows link to the recipe.
\<close>

definition TagsInRecipeSerializer_to_representation :: "tag \<Rightarrow> pyval" where
  "TagsInRecipeSerializer_to_representation t =
     PDict [(''id'', PInt (tag_pk t)), (''name'', PStr (tag_name t)),
            (''slug'', PStr (tag_slug t))]"

definition recipe_tags :: "store \<Rightarrow> recipe \<Rightarrow> tag list" where
  "recipe_tags s r =
     concat (map (\<lambda>j. filter (\<lambda>t. tag_pk t = tir_tag j) (Tag_objects s))
               (filter (\<lambda>j. tir_recipe j = recipe_pk r) (TagInRecipe_objects s)))"

definition recipe_amounts :: "store \<Rightarrow> recipe \<Rightarrow> amount_of_ingredient list" where
  "recipe_amounts s r =
     concat (map (\<lambda>j. filter (\<lambda>a. aoi_pk a = iir_amount_of_ingredient j)
                         (AmountOfIngredient_objects s))
               (filter (\<lambda>j. iir_recipe j = recipe_pk r) (IngredientInRecipe_objects s)))"

definition IngredientInRecipeSerializer_to_representation ::
  "store \<Rightarrow> amount_of_ingredient \<Rightarrow> pyval list" where
  "IngredientInRecipeSerializer_to_representation s a =
     map (\<lambda>i. PDict [(''id'', PInt (ingredient_pk i)), (''name'', PStr (ingredient_name i)),
                     (''measurement_unit'', PStr (measurement_unit i)),
                     (''amount'', PInt (aoi_amount a))])
       (filter (\<lambda>i. ingredient_pk i = aoi_ingredient a) (Ingredient_objects s))"

definition Recipe_to_representation ::
  "env \<Rightarrow> request option \<Rightarrow> store \<Rightarrow> user \<Rightarrow> recipe \<Rightarrow> error + pydict" where
  "Recipe_to_representation e context s author r =
     (case UserMeSerializer_to_representation context author of
        Inl err \<Rightarrow> Inl err
      | Inr author_representation \<Rightarrow>
          Inr [(''id'', PInt (recipe_pk r)),
               (''tags'', PList (map TagsInRecipeSerializer_to_representation (recipe_tags s r))),
               (''author'', PDict author_representation),
               (''ingredients'',
                  PList (concat (map (IngredientInRecipeSerializer_to_representation s)
                                   (recipe_amounts s r)))),
               (''is_favorited'', render_field e ''is_favorited'' r),
               (''is_in_shopping_cart'', render_field e ''is_in_shopping_cart'' r),
               (''name'', render_field e ''name'' r),
               (''image'', render_field e ''image'' r),
               (''text'', render_field e ''text'' r),
               (''cooking_time'', render_field e ''cooking_time'' r)])"

section \<open>Notions used to state the properties\<close>

text \<open>\<open>store_extends s s'\<close>: every row of \<open>s\<close> is still there in \<open>s'\<close>, in its place.\<close>

definition store_extends :: "store \<Rightarrow> store \<Rightarrow> bool" where
  "store_extends s s' =
     (take (length (Tag_objects s)) (Tag_objects s') = Tag_objects s \<and>
      Ingredient_objects s' = Ingredient_objects s \<and>
      take (length (Recipe_objects s)) (Recipe_objects s') = Recipe_objects s \<and>
      take (length (TagInRecipe_objects s)) (TagInRecipe_objects s') = TagInRecipe_objects s \<and>
      take (length (AmountOfIngredient_objects s)) (AmountOfIngredient_objects s')
        = AmountOfIngredient_objects s \<and>
      take (length (IngredientInRecipe_objects s)) (IngredientInRecipe_objects s')
        = IngredientInRecipe_objects s)"

text \<open>
  \<open>iir_count r k s\<close>: the number of IngredientInRecipe rows that link recipe \<open>r\<close> to the
  AmountOfIngredient row \<open>k\<close>. \<open>listings i a xs\<close>: how often the validated ingredient
  list \<open>xs\<close> names ingredient \<open>i\<close> with amount \<open>a\<close>. \<open>store_ok\<close>: what the database keeps
  true of these tables, primary keys of AmountOfIngredient rows are distinct and every
  join row refers to a recipe row.
\<close>

definition iir_count :: "int \<Rightarrow> int \<Rightarrow> store \<Rightarrow> nat" where
  "iir_count r k s =
     length (filter (\<lambda>j. iir_recipe j = r \<and> iir_amount_of_ingredient j = k)
       (IngredientInRecipe_objects s))"

definition listings :: "int \<Rightarrow> int \<Rightarrow> (ingredient \<times> int option) list \<Rightarrow> nat" where
  "listings i a xs = length (filter (\<lambda>x. ingredient_pk (fst x) = i \<and> snd x = Some a) xs)"

definition store_ok :: "store \<Rightarrow> bool" where
  "store_ok s =
     (distinct (map aoi_pk (AmountOfIngredient_objects s)) \<and>
      list_all (\<lambda>j. iir_recipe j \<in> set (map recipe_pk (Recipe_objects s)))
        (IngredientInRecipe_objects s))"

abbreviation "amounts \<equiv> AmountOfIngredient_objects"
abbreviation "joins \<equiv> IngredientInRecipe_objects"




definition links :: "store \<Rightarrow> recipe \<Rightarrow> ingredient_in_recipe \<Rightarrow> ingredient \<times> int option \<Rightarrow> bool" where
  "links s r j x =
     (iir_recipe j = recipe_pk r \<and>
      list_ex (\<lambda>row. aoi_pk row = iir_amount_of_ingredient j \<and>
                      aoi_ingredient row = ingredient_pk (fst x) \<and>
                      snd x = Some (aoi_amount row))
        (AmountOfIngredient_objects s))"

text \<open>
  \<open>settles child item\<close>: the child serializer answers the item with a value or with a
  validation error of a non-empty detail, not with another exception.
\<close>

definition settles :: "(pyval \<Rightarrow> error + 'a) \<Rightarrow> pyval \<Rightarrow> bool" where
  "settles child item =
     (case child item of
        Inr t \<Rightarrow> True
      | Inl (ValidationError d) \<Rightarrow> d \<noteq> Fields []
      | Inl err \<Rightarrow> False)"

text \<open>
  \<open>no_field_raises field_list data\<close>: no field of the list answers the data with an
  exception other than a validation error.
\<close>

definition no_field_raises ::
  "(string \<times> (pydict \<Rightarrow> vval outcome)) list \<Rightarrow> pydict \<Rightarrow> bool" where
  "no_field_raises field_list data =
     list_all (\<lambda>f. case snd f data of Raise err \<Rightarrow> False | _ \<Rightarrow> True) field_list"

text \<open>
  An example: one user, one tag, one ingredient, and the validated data of a request that
  lists 200 g of salt and then an ingredient that is not (or no longer) a row of the
  Ingredient table. The image is the file that the data URI of the two bytes \<^verbatim>\<open>hi\<close> decodes
  to.
\<close>

definition example_user :: user where
  "example_user = \<lparr>user_pk = 3, email = ''cook@example.org'', username = ''cook'',
     first_name = ''Ann'', last_name = ''Lee'', is_subscribed = False, avatar = None\<rparr>"

definition example_context :: "request option" where
  "example_context = Some \<lparr>request_user = Authenticated example_user\<rparr>"

definition breakfast :: tag where
  "breakfast = \<lparr>tag_pk = 1, tag_name = ''breakfast'', tag_slug = ''breakfast''\<rparr>"

definition salt :: ingredient where
  "salt = \<lparr>ingredient_pk = 5, ingredient_name = ''salt'', measurement_unit = ''g''\<rparr>"

definition stale_ingredient :: ingredient where
  "stale_ingredient = \<lparr>ingredient_pk = 7, ingredient_name = ''saffron'', measurement_unit = ''g''\<rparr>"

definition example_store :: store where
  "example_store = \<lparr>Tag_objects = [breakfast], Ingredient_objects = [salt],
     Recipe_objects = [], TagInRecipe_objects = [], AmountOfIngredient_objects = [],
     IngredientInRecipe_objects = []\<rparr>"

definition temp_png :: content_file where
  "temp_png = \<lparr>cf_name = ''temp.png'', cf_content = [104, 105]\<rparr>"

definition stale_validated_data :: validated_data where
  "stale_validated_data =
     [(''tags'', VTags [breakfast]),
      (''ingredients'', VIngredients [(salt, Some 200), (stale_ingredient, Some 100)]),
      (''name'', VStr ''soup''),
      (''image'', VFile temp_png),
      (''text'', VStr ''boil''),
      (''cooking_time'', VInt 30)]"

text \<open>Two requests that each list 200 g of salt, and the store after each of them.\<close>

definition soup_validated_data :: validated_data where
  "soup_validated_data =
     [(''tags'', VTags [breakfast]),
      (''ingredients'', VIngredients [(salt, Some 200)]),
      (''name'', VStr ''soup''),
      (''image'', VFile temp_png),
      (''text'', VStr ''boil''),
      (''cooking_time'', VInt 30)]"

definition stew_validated_data :: validated_data where
  "stew_validated_data =
     [(''tags'', VTags [breakfast]),
      (''ingredients'', VIngredients [(salt, Some 200)]),
      (''name'', VStr ''stew''),
      (''image'', VFile temp_png),
      (''text'', VStr ''simmer''),
      (''cooking_time'', VInt 90)]"

definition soup_recipe :: recipe where
  "soup_recipe = \<lparr>recipe_pk = 1, recipe_author = 3,
     recipe_fields = [(''name'', VStr ''soup''), (''image'', VFile temp_png),
                      (''text'', VStr ''boil''), (''cooking_time'', VInt 30)]\<rparr>"

definition stew_recipe :: recipe where
  "stew_recipe = \<lparr>recipe_pk = 2, recipe_author = 3,
     recipe_fields = [(''name'', VStr ''stew''), (''image'', VFile temp_png),
                      (''text'', VStr ''simmer''), (''cooking_time'', VInt 90)]\<rparr>"

definition store_after_soup :: store where
  "store_after_soup = \<lparr>Tag_objects = [breakfast], Ingredient_objects = [salt],
     Recipe_objects = [soup_recipe],
     TagInRecipe_objects = [\<lparr>tir_pk = 1, tir_tag = 1, tir_recipe = 1\<rparr>],
     AmountOfIngredient_objects = [\<lparr>aoi_pk = 1, aoi_ingredient = 5, aoi_amount = 200\<rparr>],
     IngredientInRecipe_objects =
       [\<lparr>iir_pk = 1, iir_amount_of_ingredient = 1, iir_recipe = 1\<rparr>]\<rparr>"

definition store_after_stew :: store where
  "store_after_stew = \<lparr>Tag_objects = [breakfast], Ingredient_objects = [salt],
     Recipe_objects = [soup_recipe, stew_recipe],
     TagInRecipe_objects = [\<lparr>tir_pk = 1, tir_tag = 1, tir_recipe = 1\<rparr>,
                            \<lparr>tir_pk = 2, tir_tag = 1, tir_recipe = 2\<rparr>],
     AmountOfIngredient_objects = [\<lparr>aoi_pk = 1, aoi_ingredient = 5, aoi_amount = 200\<rparr>],
     IngredientInRecipe_objects =
       [\<lparr>iir_pk = 1, iir_amount_of_ingredient = 1, iir_recipe = 1\<rparr>,
        \<lparr>iir_pk = 2, iir_amount_of_ingredient = 1, iir_recipe = 2\<rparr>]\<rparr>"

text \<open>
  A request that lists 200 g of salt twice: its payload, its validated data, the recipe
  it creates in the example store, the store after it, and the store after the stew that
  follows.
\<close>

definition brine_payload :: pydict where
  "brine_payload =
     [(''tags'', PList [PInt 1]),
      (''ingredients'', PList [PDict [(''id'', PInt 5), (''amount'', PInt 200)],
                               PDict [(''id'', PInt 5), (''amount'', PInt 200)]]),
      (''name'', PStr ''brine''),
      (''image'', PStr ''data:image/png;base64,aGk=''),
      (''text'', PStr ''stir''),
      (''cooking_time'', PInt 5)]"

definition brine_validated_data :: validated_data where
  "brine_validated_data =
     [(''tags'', VTags [breakfast]),
      (''ingredients'', VIngredients [(salt, Some 200), (salt, Some 200)]),
      (''name'', VStr ''brine''),
      (''image'', VFile temp_png),
      (''text'', VStr ''stir''),
      (''cooking_time'', VInt 5)]"

definition brine_recipe :: recipe where
  "brine_recipe = \<lparr>recipe_pk = 1, recipe_author = 3,
     recipe_fields = [(''name'', VStr ''brine''), (''image'', VFile temp_png),
                      (''text'', VStr ''stir''), (''cooking_time'', VInt 5)]\<rparr>"

definition store_after_brine :: store where
  "store_after_brine = \<lparr>Tag_objects = [breakfast], Ingredient_objects = [salt],
     Recipe_objects = [brine_recipe],
     TagInRecipe_objects = [\<lparr>tir_pk = 1, tir_tag = 1, tir_recipe = 1\<rparr>],
     AmountOfIngredient_objects = [\<lparr>aoi_pk = 1, aoi_ingredient = 5, aoi_amount = 200\<rparr>],
     IngredientInRecipe_objects =
       [\<lparr>iir_pk = 1, iir_amount_of_ingredient = 1, iir_recipe = 1\<rparr>,
        \<lparr>iir_pk = 2, iir_amount_of_ingredient = 1, iir_recipe = 1\<rparr>]\<rparr>"

definition store_after_brine_and_stew :: store where
  "store_after_brine_and_stew = \<lparr>Tag_objects = [breakfast], Ingredient_objects = [salt],
     Recipe_objects = [brine_recipe, stew_recipe],
     TagInRecipe_objects = [\<lparr>tir_pk = 1, tir_tag = 1, tir_recipe = 1\<rparr>,
                            \<lparr>tir_pk = 2, tir_tag = 1, tir_recipe = 2\<rparr>],
     AmountOfIngredient_objects = [\<lparr>aoi_pk = 1, aoi_ingredient = 5, aoi_amount = 200\<rparr>],
     IngredientInRecipe_objects =
       [\<lparr>iir_pk = 1, iir_amount_of_ingredient = 1, iir_recipe = 1\<rparr>,
        \<lparr>iir_pk = 2, iir_amount_of_ingredient = 1, iir_recipe = 1\<rparr>,
        \<lparr>iir_pk = 3, iir_amount_of_ingredient = 1, iir_recipe = 2\<rparr>]\<rparr>"

text \<open>
  An example environment: strings of decimal digits are read as integers; the name and
  the text of a recipe are required strings, the cooking time and the amount required
  integers; the two flags are read-only and rendered as false; every file passes as an
  image; a stored image is rendered as its URL.
\<close>

definition decimal_of_str :: "string \<Rightarrow> int option" where
  "decimal_of_str s =
     (if s \<noteq> [] \<and> list_all (\<lambda>c. c \<in> set ''0123456789'') s
      then Some (int (foldl (\<lambda>n c. 10 * n + (of_char c - 48)) 0 s))
      else None)"

definition char_field :: "pyval option \<Rightarrow> vval outcome" where
  "char_field v =
     (case v of
        None \<Rightarrow> Invalid (Code ''required'')
      | Some PNone \<Rightarrow> Invalid (Code ''null'')
      | Some (PStr s) \<Rightarrow> Valid (VStr s)
      | Some x \<Rightarrow> Invalid (Code ''invalid''))"

definition integer_field :: "pyval option \<Rightarrow> int outcome" where
  "integer_field v =
     (case v of
        None \<Rightarrow> Invalid (Code ''required'')
      | Some PNone \<Rightarrow> Invalid (Code ''null'')
      | Some (PInt n) \<Rightarrow> Valid n
      | Some x \<Rightarrow> Invalid (Code ''invalid''))"

definition example_render :: "string \<Rightarrow> recipe \<Rightarrow> pyval" where
  "example_render name r =
     (if name = ''is_favorited'' \<or> name = ''is_in_shopping_cart'' then PBool False
      else case dict_get (recipe_fields r) name of
             Some (VStr s) \<Rightarrow> PStr s
           | Some (VInt n) \<Rightarrow> PInt n
           | Some (VBool b) \<Rightarrow> PBool b
           | Some (VFile f) \<Rightarrow> PStr (''/media/'' @ cf_name f)
           | _ \<Rightarrow> PNone)"

definition example_env :: env where
  "example_env = \<lparr>
     int_of_str = decimal_of_str,
     model_field = (\<lambda>name v.
        if name = ''is_favorited'' \<or> name = ''is_in_shopping_cart'' then Skip
        else if name = ''cooking_time'' then map_outcome VInt (integer_field v)
        else char_field v),
     amount_field = integer_field,
     verify_image = (\<lambda>f. True),
     render_field = example_render\<rparr>"

text \<open>
  Two creation payloads with an empty ingredient list, one with a tag and one without the
  \<^verbatim>\<open>tags\<close> key. The image is the data URI of the two bytes \<^verbatim>\<open>hi\<close>.
\<close>

definition toast_payload :: pydict where
  "toast_payload =
     [(''tags'', PList [PInt 1]),
      (''ingredients'', PList []),
      (''name'', PStr ''toast''),
      (''image'', PStr ''data:image/png;base64,aGk=''),
      (''text'', PStr ''toast the bread''),
      (''cooking_time'', PInt 3)]"

definition untagged_payload :: pydict where
  "untagged_payload =
     [(''ingredients'', PList []),
      (''name'', PStr ''toast''),
      (''image'', PStr ''data:image/png;base64,aGk=''),
      (''text'', PStr ''toast the bread''),
      (''cooking_time'', PInt 3)]"

text \<open>
  A recipe with every field set, the store that holds it with its tag and its 200 g of
  salt, its representation for the example user, and an update payload without the
  \<^verbatim>\<open>image\<close> key.
\<close>

definition pancake_recipe :: recipe where
  "pancake_recipe = \<lparr>recipe_pk = 1, recipe_author = 3,
     recipe_fields = [(''name'', VStr ''pancakes''), (''image'', VFile temp_png),
                      (''text'', VStr ''fry''), (''cooking_time'', VInt 20)]\<rparr>"

definition pancake_store :: store where
  "pancake_store = \<lparr>Tag_objects = [breakfast], Ingredient_objects = [salt],
     Recipe_objects = [pancake_recipe],
     TagInRecipe_objects = [\<lparr>tir_pk = 1, tir_tag = 1, tir_recipe = 1\<rparr>],
     AmountOfIngredient_objects = [\<lparr>aoi_pk = 1, aoi_ingredient = 5, aoi_amount = 200\<rparr>],
     IngredientInRecipe_objects =
       [\<lparr>iir_pk = 1, iir_amount_of_ingredient = 1, iir_recipe = 1\<rparr>]\<rparr>"

definition pancake_representation :: pydict where
  "pancake_representation =
     [(''id'', PInt 1),
      (''tags'', PList [PDict [(''id'', PInt 1), (''name'', PStr ''breakfast''),
                               (''slug'', PStr ''breakfast'')]]),
      (''author'', PDict [(''email'', PStr ''cook@example.org''), (''id'', PInt 3),
                          (''username'', PStr ''cook''), (''first_name'', PStr ''Ann''),
                          (''last_name'', PStr ''Lee''), (''is_subscribed'', PBool False),
                          (''avatar'', PNone)]),
      (''ingredients'', PList [PDict [(''id'', PInt 5), (''name'', PStr ''salt''),
                                      (''measurement_unit'', PStr ''g''),
                                      (''amount'', PInt 200)]]),
      (''is_favorited'', PBool False),
      (''is_in_shopping_cart'', PBool False),
      (''name'', PStr ''pancakes''),
      (''image'', PStr ''/media/temp.png''),
      (''text'', PStr ''fry''),
      (''cooking_time'', PInt 20)]"

definition crepes_payload :: pydict where
  "crepes_payload =
     [(''tags'', PList [PInt 1]),
      (''ingredients'', PList [PDict [(''id'', PInt 5), (''amount'', PInt 300)]]),
      (''name'', PStr ''crepes''),
      (''text'', PStr ''fry thin''),
      (''cooking_time'', PInt 15)]"

section \<open>Base64 decoding inverts the standard encoding\<close>


lemma index_of_nth: "distinct xs \<Longrightarrow> n < length xs \<Longrightarrow> index_of xs (xs ! n) = Some n"
proof (induction xs arbitrary: n)
  case Nil
  then show ?case by simp
next
  case (Cons y ys)
  show ?case
  proof (cases n)
    case 0
    then show ?thesis by simp
  next
    case (Suc m)
    with Cons.prems have "ys ! m \<in> set ys" "y \<notin> set ys" by auto
    then have "ys ! m \<noteq> y" by auto
    with Suc Cons show ?thesis by simp
  qed
qed

lemma distinct_b64_alphabet: "distinct b64_alphabet"
  by (simp add: b64_alphabet_def)

lemma length_b64_alphabet: "length b64_alphabet = 64"
  by (simp add: b64_alphabet_def)

lemma b64_value_char: "n < 64 \<Longrightarrow> b64_value (b64_char n) = Some n"
  by (simp add: b64_value_def b64_char_def index_of_nth distinct_b64_alphabet length_b64_alphabet)

lemma b64_char_in_alphabet: "n < 64 \<Longrightarrow> b64_char n \<in> set b64_alphabet"
  by (simp add: b64_char_def length_b64_alphabet)

lemma b64_char_not_pad: "n < 64 \<Longrightarrow> b64_char n \<noteq> CHR ''=''"
  using b64_char_in_alphabet[of n] by (auto simp: b64_alphabet_def)

lemma b64_char_not_semicolon: "n < 64 \<Longrightarrow> b64_char n \<noteq> CHR '';''"
  using b64_char_in_alphabet[of n] by (auto simp: b64_alphabet_def)

lemma b64_char_ascii: "n < 64 \<Longrightarrow> \<not> 128 \<le> (of_char (b64_char n) :: nat)"
  using b64_char_in_alphabet[of n] by (auto simp: b64_alphabet_def)


lemma unat_byte_less: "unat (a :: byte) < 256"
  using unsigned_less[of a] by simp

lemma sextet1: "unat (a :: byte) div 4 < 64"
  using unat_byte_less[of a] by simp

lemma sextet2: "unat (a :: byte) mod 4 * 16 + unat (b :: byte) div 16 < 64"
proof -
  have "unat a mod 4 < 4" "unat b div 16 < 16" using unat_byte_less[of b] by simp_all
  then show ?thesis by linarith
qed

lemma sextet3: "unat (b :: byte) mod 16 * 4 + unat (c :: byte) div 64 < 64"
proof -
  have "unat b mod 16 < 16" "unat c div 64 < 4" using unat_byte_less[of c] by simp_all
  then show ?thesis by linarith
qed

lemma sextet4: "unat (c :: byte) mod 64 < 64"
  by simp

lemma sextet2_last: "unat (a :: byte) mod 4 * 16 < 64"
proof -
  have "unat a mod 4 < 4" by simp
  then show ?thesis by linarith
qed

lemma sextet3_last: "unat (b :: byte) mod 16 * 4 < 64"
proof -
  have "unat b mod 16 < 16" by simp
  then show ?thesis by linarith
qed

lemma nat_first: "(b::nat) < 256 \<Longrightarrow> a div 4 * 4 + (a mod 4 * 16 + b div 16) div 16 = a"
  by simp

lemma nat_second:
  "(b::nat) < 256 \<Longrightarrow> c < 256 \<Longrightarrow>
   (a mod 4 * 16 + b div 16) mod 16 * 16 + (b mod 16 * 4 + c div 64) div 4 = b"
  by (simp add: div_mult2_eq[symmetric])

lemma nat_third: "(c::nat) < 256 \<Longrightarrow> (b mod 16 * 4 + c div 64) mod 4 * 64 + c mod 64 = c"
  by (simp add: div_mult2_eq[symmetric])

lemma of_nat_unat_byte: "n = unat (a :: byte) \<Longrightarrow> (of_nat n :: byte) = a"
  by simp

lemma byte_first:
  fixes a b :: byte
  shows "(of_nat (unat a div 4 * 4 + (unat a mod 4 * 16 + unat b div 16) div 16) :: byte) = a"
  by (rule of_nat_unat_byte) (rule nat_first[OF unat_byte_less])

lemma byte_first_last:
  fixes a :: byte
  shows "(of_nat (unat a div 4 * 4 + (unat a mod 4 * 16) div 16) :: byte) = a"
  by (rule of_nat_unat_byte) simp

lemma byte_second:
  fixes a b c :: byte
  shows "(of_nat ((unat a mod 4 * 16 + unat b div 16) mod 16 * 16
           + (unat b mod 16 * 4 + unat c div 64) div 4) :: byte) = b"
  by (rule of_nat_unat_byte) (rule nat_second[OF unat_byte_less unat_byte_less])

lemma byte_second_last:
  fixes a b :: byte
  shows "(of_nat ((unat a mod 4 * 16 + unat b div 16) mod 16 * 16
           + (unat b mod 16 * 4) div 4) :: byte) = b"
  by (rule of_nat_unat_byte) (use unat_byte_less[of b] in \<open>simp add: div_mult2_eq[symmetric]\<close>)

lemma byte_third:
  fixes b c :: byte
  shows "(of_nat ((unat b mod 16 * 4 + unat c div 64) mod 4 * 64 + unat c mod 64) :: byte) = c"
  by (rule of_nat_unat_byte) (rule nat_third[OF unat_byte_less])

lemma a2b_step0:
  "n < 64 \<Longrightarrow> a2b_base64 0 l p out (b64_char n # cs) = a2b_base64 1 n 0 out cs"
  by (simp add: b64_value_char b64_char_not_pad)

lemma a2b_step1:
  "n < 64 \<Longrightarrow> a2b_base64 1 l p out (b64_char n # cs) =
     a2b_base64 2 (n mod 16) 0 (out @ [of_nat (l * 4 + n div 16)]) cs"
  by (simp add: b64_value_char b64_char_not_pad)

lemma a2b_step2:
  "n < 64 \<Longrightarrow> a2b_base64 2 l p out (b64_char n # cs) =
     a2b_base64 3 (n mod 4) 0 (out @ [of_nat (l * 16 + n div 4)]) cs"
  by (simp add: b64_value_char b64_char_not_pad)

lemma a2b_step3:
  "n < 64 \<Longrightarrow> a2b_base64 3 l p out (b64_char n # cs) =
     a2b_base64 0 0 0 (out @ [of_nat (l * 64 + n)]) cs"
  by (simp add: b64_value_char b64_char_not_pad)

lemma a2b_pad_two: "a2b_base64 2 l 0 out (CHR ''='' # CHR ''='' # cs) = Inr out"
  by simp

lemma a2b_pad_one: "a2b_base64 3 l 0 out (CHR ''='' # cs) = Inr out"
  by simp

lemma a2b_quad:
  fixes a b c :: byte
  shows "a2b_base64 0 l p out
     (b64_char (unat a div 4) # b64_char (unat a mod 4 * 16 + unat b div 16) #
      b64_char (unat b mod 16 * 4 + unat c div 64) # b64_char (unat c mod 64) # cs)
     = a2b_base64 0 0 0 (out @ [a, b, c]) cs"
  by (simp only: a2b_step0[OF sextet1] a2b_step1[OF sextet2] a2b_step2[OF sextet3]
      a2b_step3[OF sextet4] byte_first byte_second byte_third
      append_assoc append_Cons append_Nil)

lemma a2b_last_one:
  fixes a :: byte
  shows "a2b_base64 0 l p out
     [b64_char (unat a div 4), b64_char (unat a mod 4 * 16), CHR ''='', CHR ''='']
     = Inr (out @ [a])"
  by (simp only: a2b_step0[OF sextet1] a2b_step1[OF sextet2_last] byte_first_last a2b_pad_two)

lemma a2b_last_two:
  fixes a b :: byte
  shows "a2b_base64 0 l p out
     [b64_char (unat a div 4), b64_char (unat a mod 4 * 16 + unat b div 16),
      b64_char (unat b mod 16 * 4), CHR ''='']
     = Inr (out @ [a, b])"
  by (simp only: a2b_step0[OF sextet1] a2b_step1[OF sextet2] a2b_step2[OF sextet3_last]
      byte_first byte_second_last a2b_pad_one append_assoc append_Cons append_Nil)

lemma a2b_base64_b64encode: "a2b_base64 0 l p out (b64encode bs) = Inr (out @ bs)"
proof (induction bs arbitrary: l p out rule: b64encode.induct)
  case 1
  then show ?case by simp
next
  case (2 a)
  show ?case using a2b_last_one[of l p out a] by simp
next
  case (3 a b)
  show ?case using a2b_last_two[of l p out a b] by simp
next
  case (4 a b c bs)
  show ?case
    using a2b_quad[of l p out a b c "b64encode bs"] 4[of 0 0 "out @ [a, b, c]"]
    by (simp del: a2b_base64.simps)
qed

lemma b64_char_plain:
  "n < 64 \<Longrightarrow> b64_char n \<noteq> CHR '';'' \<and> \<not> 128 \<le> (of_char (b64_char n) :: nat)"
  by (simp add: b64_char_not_semicolon b64_char_ascii)

lemma b64encode_chars:
  "c \<in> set (b64encode bs) \<Longrightarrow> c \<noteq> CHR '';'' \<and> \<not> 128 \<le> (of_char c :: nat)"
proof (induction bs rule: b64encode.induct)
  case 1
  then show ?case by simp
next
  case (2 a)
  then show ?case
    using b64_char_plain[OF sextet1, of a] b64_char_plain[OF sextet2_last, of a] by auto
next
  case (3 a b)
  then show ?case
    using b64_char_plain[OF sextet1, of a] b64_char_plain[OF sextet2, of a b]
      b64_char_plain[OF sextet3_last, of b] by auto
next
  case (4 a b c bs)
  then show ?case
    using b64_char_plain[OF sextet1, of a] b64_char_plain[OF sextet2, of a b]
      b64_char_plain[OF sextet3, of b c] b64_char_plain[OF sextet4, of c] by auto
qed

lemma b64decode_b64encode: "b64decode (b64encode bs) = Inr bs"
proof -
  have "\<not> list_ex (\<lambda>c. 128 \<le> (of_char c :: nat)) (b64encode bs)"
    using b64encode_chars[of _ bs] by (auto simp: list_ex_iff)
  then show ?thesis by (simp add: b64decode_def a2b_base64_b64encode)
qed


lemma startswith_same_head: "startswith (c # cs) (d # ds) \<Longrightarrow> c = d"
  by (simp add: startswith_def)

lemma startswith_append: "startswith (p @ s) p"
  by (simp add: startswith_def)

lemma str_split_from_skip:
  "d \<notin> set u \<Longrightarrow>
   str_split_from (d # ds) cur (u @ v) = str_split_from (d # ds) (cur @ u) v"
proof (induction u arbitrary: cur)
  case Nil
  then show ?case by simp
next
  case (Cons c u)
  then have "\<not> startswith (c # u @ v) (d # ds)"
    using startswith_same_head[of c "u @ v" d ds] by auto
  with Cons show ?case by simp
qed

lemma str_split_from_sep:
  "sep \<noteq> [] \<Longrightarrow> str_split_from sep cur (sep @ v) = cur # str_split_from sep [] v"
  by (cases sep) (simp_all add: startswith_def)

lemma str_split_from_plain:
  "d \<notin> set u \<Longrightarrow> str_split_from (d # ds) cur u = [cur @ u]"
  using str_split_from_skip[of d u ds cur "[]"] by simp

lemma str_split_once:
  assumes "d \<notin> set u" "d \<notin> set v"
  shows "str_split (d # ds) (u @ (d # ds) @ v) = [u, v]"
proof -
  have "str_split (d # ds) (u @ (d # ds) @ v) = str_split_from (d # ds) u ((d # ds) @ v)"
    using str_split_from_skip[OF assms(1), of ds "[]" "(d # ds) @ v"]
    by (simp add: str_split_def)
  also have "\<dots> = u # str_split_from (d # ds) [] v"
    by (rule str_split_from_sep) simp
  also have "\<dots> = [u, v]"
    using str_split_from_plain[OF assms(2), of ds "[]"] by simp
  finally show ?thesis .
qed


lemma Base64ImageField_passthrough:
  "\<not> is_data_uri data \<Longrightarrow> Base64ImageField_to_internal_value parent data = parent data"
  by (auto simp: Base64ImageField_to_internal_value_def is_data_uri_def
      split: field_data.splits pyval.splits)

lemma b64encode_no_semicolon: "CHR '';'' \<notin> set (b64encode bs)"
  using b64encode_chars[of "CHR '';''" bs] by auto

lemma data_uri_split:
  assumes "CHR '';'' \<notin> set ext"
  shows "str_split '';base64,'' (''data:image/'' @ ext @ '';base64,'' @ b64encode bs)
         = [''data:image/'' @ ext, b64encode bs]"
proof -
  have "CHR '';'' \<notin> set (''data:image/'' @ ext)" using assms by simp
  from str_split_once[OF this b64encode_no_semicolon, of "''base64,''" bs]
  show ?thesis by simp
qed

lemma format_split:
  assumes "CHR ''/'' \<notin> set ext"
  shows "last (str_split ''/'' (''data:image/'' @ ext)) = ext"
proof -
  have "CHR ''/'' \<notin> set ''data:image''" by simp
  from str_split_once[OF this assms, of "[]"] show ?thesis by simp
qed

text \<open>
  C4. For a MIME subtype \<open>ext\<close> (a token: no \<^verbatim>\<open>/\<close>, no \<^verbatim>\<open>;\<close>) and the base64 encoding of
  any bytes \<open>bs\<close>, the field hands its parent a file named \<^verbatim>\<open>temp.<ext>\<close> whose content is
  \<open>bs\<close>; every input that is not a string starting with \<^verbatim>\<open>data:image\<close> (a file upload, any
  other value) goes to the parent unchanged.
\<close>

theorem Base64ImageField_decodes_data_uri:
  "(CHR ''/'' \<notin> set ext \<and> CHR '';'' \<notin> set ext \<longrightarrow>
      Base64ImageField_to_internal_value parent
        (Json (PStr (''data:image/'' @ ext @ '';base64,'' @ b64encode bs)))
      = parent (FileObj \<lparr>cf_name = ''temp.'' @ ext, cf_content = bs\<rparr>)) \<and>
   (\<not> is_data_uri data \<longrightarrow>
      Base64ImageField_to_internal_value parent data = parent data)"
proof (intro conjI impI)
  assume ext: "CHR ''/'' \<notin> set ext \<and> CHR '';'' \<notin> set ext"
  have pre: "startswith (''data:image/'' @ ext @ '';base64,'' @ b64encode bs) ''data:image''"
    by (simp add: startswith_def)
  show "Base64ImageField_to_internal_value parent
        (Json (PStr (''data:image/'' @ ext @ '';base64,'' @ b64encode bs)))
      = parent (FileObj \<lparr>cf_name = ''temp.'' @ ext, cf_content = bs\<rparr>)"
    unfolding Base64ImageField_to_internal_value_def
    using pre ext data_uri_split[of ext bs] format_split[of ext]
    by (simp add: b64decode_b64encode Let_def del: append_Cons)
next
  assume "\<not> is_data_uri data"
  then show "Base64ImageField_to_internal_value parent data = parent data"
    by (rule Base64ImageField_passthrough)
qed

theorem Base64ImageField_decodes_data_uri_witness:
  "CHR ''/'' \<notin> set ''png'' \<and> CHR '';'' \<notin> set ''png'' \<and>
   Base64ImageField_to_internal_value FileField_to_internal_value (Json (PStr ''data:image/png;base64,aGk=''))
     = Valid \<lparr>cf_name = ''temp.png'', cf_content = [104, 105]\<rparr> \<and>
   \<not> is_data_uri (FileObj \<lparr>cf_name = ''dish.png'', cf_content = [1, 2]\<rparr>) \<and>
   Base64ImageField_to_internal_value FileField_to_internal_value (FileObj \<lparr>cf_name = ''dish.png'', cf_content = [1, 2]\<rparr>)
     = Valid \<lparr>cf_name = ''dish.png'', cf_content = [1, 2]\<rparr>"
  using Base64ImageField_decodes_data_uri[of "''png''" FileField_to_internal_value "[104, 105]"
      "FileObj \<lparr>cf_name = ''dish.png'', cf_content = [1, 2]\<rparr>"]
  by (simp add: is_data_uri_def b64_char_def b64_alphabet_def FileField_to_internal_value_def)

section \<open>Errors of the image decoder\<close>














section \<open>Deserialization of the recipe payload\<close>

text \<open>
  C10. A payload with no \<^verbatim>\<open>'tags'\<close> key makes deserialization raise \<^verbatim>\<open>KeyError\<close>, from the
  unconditional pop, whatever the superclass validation would do with the payload: no
  field validation has run and no validation error is built.
\<close>

theorem to_internal_value_missing_tags_KeyError:
  assumes "''tags'' \<notin> fst ` set data"
  shows "RecipeCreateSerializer_to_internal_value super_to_internal_value data = Inl KeyError"
  using assms by (simp add: RecipeCreateSerializer_to_internal_value_def dict_pop_def
      map_of_eq_None_iff[THEN iffD2])

theorem to_internal_value_missing_tags_KeyError_witness:
  "''tags'' \<notin> fst ` set [(''name'', PStr ''soup''), (''ingredients'', PList [])] \<and>
   RecipeCreateSerializer_to_internal_value (\<lambda>d. Inr d)
     [(''name'', PStr ''soup''), (''ingredients'', PList [])] = Inl KeyError"
  using to_internal_value_missing_tags_KeyError
    [of "[(''name'', PStr ''soup''), (''ingredients'', PList [])]" "\<lambda>d. Inr d"]
  by simp


section \<open>The authenticated user representation\<close>

text \<open>
  C6. Rendering a user through \<^verbatim>\<open>UserMeSerializer\<close> for an anonymous requester raises
  \<^verbatim>\<open>NotAuthenticated\<close>, whoever the rendered user is: the result is the error, with no
  field of the user in it.
\<close>

theorem UserMeSerializer_anonymous_NotAuthenticated:
  "UserMeSerializer_to_representation (Some \<lparr>request_user = AnonymousUser\<rparr>) instance
     = Inl NotAuthenticated"
  by (simp add: UserMeSerializer_to_representation_def)

section \<open>Recipe creation writes step by step\<close>


lemma store_extends_refl: "store_extends s s"
  by (simp add: store_extends_def)

lemma take_append_prefix: "take (length xs) ys = xs \<Longrightarrow> take (length xs) (ys @ zs) = xs"
  by (metis append_eq_conv_conj append_take_drop_id append.assoc)

lemma take_trans:
  "take (length xs) ys = xs \<Longrightarrow> take (length ys) zs = ys \<Longrightarrow> take (length xs) zs = xs"
  by (metis append_eq_conv_conj append_take_drop_id append.assoc)

lemma store_extends_trans:
  "store_extends s s1 \<Longrightarrow> store_extends s1 s2 \<Longrightarrow> store_extends s s2"
  unfolding store_extends_def by (auto intro: take_trans)

lemma Tag_get_or_create_extends:
  "Tag_objects_get_or_create pk s = (r, s1) \<Longrightarrow>
   store_extends s s1 \<and> Recipe_objects s1 = Recipe_objects s"
  by (auto simp: Tag_objects_get_or_create_def store_extends_def Let_def
      split: option.splits if_splits)

lemma TagInRecipe_create_extends:
  "store_extends s (TagInRecipe_objects_create t r s) \<and>
   Recipe_objects (TagInRecipe_objects_create t r s) = Recipe_objects s"
  by (simp add: TagInRecipe_objects_create_def store_extends_def)

lemma AmountOfIngredient_get_or_create_extends:
  "AmountOfIngredient_objects_get_or_create i a s = (r, s1) \<Longrightarrow>
   store_extends s s1 \<and> Recipe_objects s1 = Recipe_objects s"
  by (auto simp: AmountOfIngredient_objects_get_or_create_def store_extends_def Let_def
      split: list.splits if_splits)

lemma IngredientInRecipe_create_extends:
  "store_extends s (IngredientInRecipe_objects_create c r s) \<and>
   Recipe_objects (IngredientInRecipe_objects_create c r s) = Recipe_objects s"
  by (simp add: IngredientInRecipe_objects_create_def store_extends_def)

lemma create_tags_extends:
  "create_tags recipe tags s = (r, s') \<Longrightarrow>
   store_extends s s' \<and> Recipe_objects s' = Recipe_objects s"
proof (induction recipe tags s arbitrary: r s' rule: create_tags.induct)
  case (1 recipe s)
  then show ?case by (simp add: store_extends_refl)
next
  case (2 recipe tag tags s)
  obtain r1 s1 where g: "Tag_objects_get_or_create (tag_pk tag) s = (r1, s1)"
    by (cases "Tag_objects_get_or_create (tag_pk tag) s")
  note e1 = Tag_get_or_create_extends[OF g]
  show ?case
  proof (cases r1)
    case (Inl e)
    with 2 g e1 show ?thesis by simp
  next
    case (Inr current_tag)
    with 2(2) g have rest:
      "create_tags recipe tags (TagInRecipe_objects_create current_tag recipe s1) = (r, s')"
      by simp
    from "2.IH"[OF g[symmetric] Inr rest]
      TagInRecipe_create_extends[of s1 current_tag recipe] e1
    show ?thesis by (auto intro: store_extends_trans)
  qed
qed

lemma create_ingredients_extends:
  "create_ingredients recipe xs s = (r, s') \<Longrightarrow>
   store_extends s s' \<and> Recipe_objects s' = Recipe_objects s"
proof (induction recipe xs s arbitrary: r s' rule: create_ingredients.induct)
  case (1 recipe s)
  then show ?case by (simp add: store_extends_refl)
next
  case (2 recipe i ingredients s)
  then show ?case by (simp add: store_extends_refl)
next
  case (3 recipe i a ingredients s)
  obtain r1 s1 where g: "AmountOfIngredient_objects_get_or_create i a s = (r1, s1)"
    by (cases "AmountOfIngredient_objects_get_or_create i a s")
  note e1 = AmountOfIngredient_get_or_create_extends[OF g]
  show ?case
  proof (cases r1)
    case (Inl e)
    with 3 g e1 show ?thesis by simp
  next
    case (Inr cur)
    with 3(2) g have rest:
      "create_ingredients recipe ingredients (IngredientInRecipe_objects_create cur recipe s1)
         = (r, s')"
      by simp
    from "3.IH"[OF g[symmetric] Inr rest]
      IngredientInRecipe_create_extends[of s1 cur recipe] e1
    show ?thesis by (auto intro: store_extends_trans)
  qed
qed

lemma Recipe_create_extends:
  "Recipe_objects_create author fv s = (recipe, s1) \<Longrightarrow>
   store_extends s s1 \<and>
   Recipe_objects s1 = Recipe_objects s @
     [\<lparr>recipe_pk = next_pk (map recipe_pk (Recipe_objects s)),
       recipe_author = author, recipe_fields = fv\<rparr>]"
  by (auto simp: Recipe_objects_create_def store_extends_def Let_def)

lemmas example_defs = example_user_def example_context_def breakfast_def salt_def
  stale_ingredient_def example_store_def stale_validated_data_def


section \<open>AmountOfIngredient rows are shared\<close>


lemma foldr_max_ge: "p \<in> set pks \<Longrightarrow> p \<le> foldr max pks (0::int)"
  by (induction pks) auto

lemma next_pk_fresh: "p \<in> set pks \<Longrightarrow> p < next_pk pks"
  using foldr_max_ge[of p pks] by (simp add: next_pk_def)

lemma next_pk_notin: "next_pk pks \<notin> set pks"
  using next_pk_fresh[of "next_pk pks" pks] by auto

text \<open>One get-or-create.\<close>

lemma goc_cases:
  assumes "AmountOfIngredient_objects_get_or_create i a s = (res, s1)"
  obtains
    (created) row where "filter (aoi_matches (ingredient_pk i) a) (amounts s) = []"
      "row = \<lparr>aoi_pk = next_pk (map aoi_pk (amounts s)),
              aoi_ingredient = ingredient_pk i, aoi_amount = a\<rparr>"
      "res = Inr row" "s1 = s\<lparr>AmountOfIngredient_objects := amounts s @ [row]\<rparr>"
  | (found) row where "filter (aoi_matches (ingredient_pk i) a) (amounts s) = [row]"
      "res = Inr row" "s1 = s"
  | (failed) e where "res = Inl e" "s1 = s"
proof (cases "filter (aoi_matches (ingredient_pk i) a) (amounts s)")
  case Nil
  show ?thesis
  proof (cases "ingredient_pk i \<in> set (map ingredient_pk (Ingredient_objects s))")
    case True
    with Nil assms show ?thesis
      by (intro created) (auto simp: AmountOfIngredient_objects_get_or_create_def Let_def)
  next
    case False
    with Nil assms show ?thesis
      by (intro failed) (auto simp: AmountOfIngredient_objects_get_or_create_def)
  qed
next
  case (Cons row rest)
  show ?thesis
  proof (cases rest)
    case Nil
    with Cons assms show ?thesis
      by (intro found) (auto simp: AmountOfIngredient_objects_get_or_create_def)
  next
    case (Cons r2 rest2)
    with \<open>filter (aoi_matches (ingredient_pk i) a) (amounts s) = row # rest\<close> assms
    show ?thesis
      by (intro failed) (auto simp: AmountOfIngredient_objects_get_or_create_def)
  qed
qed

lemma goc_frame:
  assumes "AmountOfIngredient_objects_get_or_create i a s = (res, s1)"
  shows "joins s1 = joins s \<and> Recipe_objects s1 = Recipe_objects s"
  by (rule goc_cases[OF assms]) simp_all

lemma goc_success:
  assumes "AmountOfIngredient_objects_get_or_create i a s = (Inr row, s1)"
  shows "filter (aoi_matches (ingredient_pk i) a) (amounts s1) = [row] \<and>
         length (filter (aoi_matches (ingredient_pk i) a) (amounts s)) \<le> 1"
  by (rule goc_cases[OF assms]) (simp_all add: aoi_matches_def)

lemma goc_count_le:
  assumes "AmountOfIngredient_objects_get_or_create i a s = (res, s1)"
    and "length (filter (aoi_matches p b) (amounts s)) \<le> 1"
  shows "length (filter (aoi_matches p b) (amounts s1)) \<le> 1"
proof (rule goc_cases[OF assms(1)])
  fix row
  assume h: "filter (aoi_matches (ingredient_pk i) a) (amounts s) = []"
    "row = \<lparr>aoi_pk = next_pk (map aoi_pk (amounts s)),
              aoi_ingredient = ingredient_pk i, aoi_amount = a\<rparr>"
    "s1 = s\<lparr>AmountOfIngredient_objects := amounts s @ [row]\<rparr>"
  show ?thesis
  proof (cases "aoi_matches p b row")
    case True
    with h(2) have "p = ingredient_pk i" "b = a" by (simp_all add: aoi_matches_def)
    with h True show ?thesis by simp
  next
    case False
    with h assms(2) show ?thesis by simp
  qed
next
  fix row assume "s1 = s"
  with assms(2) show ?thesis by simp
next
  fix e assume "s1 = s"
  with assms(2) show ?thesis by simp
qed

lemma goc_mono:
  assumes "AmountOfIngredient_objects_get_or_create i a s = (res, s1)"
  shows "length (filter (aoi_matches p b) (amounts s)) \<le> length (filter (aoi_matches p b) (amounts s1))"
  by (rule goc_cases[OF assms]) simp_all

lemma goc_subset:
  assumes "AmountOfIngredient_objects_get_or_create i a s = (res, s1)"
  shows "set (amounts s) \<subseteq> set (amounts s1)"
  by (rule goc_cases[OF assms]) auto

lemma goc_distinct:
  assumes "AmountOfIngredient_objects_get_or_create i a s = (res, s1)"
    and "distinct (map aoi_pk (amounts s))"
  shows "distinct (map aoi_pk (amounts s1))"
  by (rule goc_cases[OF assms(1)])
    (use assms(2) next_pk_notin[of "map aoi_pk (amounts s)"] in simp_all)

lemma goc_row:
  assumes "AmountOfIngredient_objects_get_or_create i a s = (Inr row, s1)"
  shows "row \<in> set (amounts s1) \<and> aoi_matches (ingredient_pk i) a row"
proof -
  from goc_success[OF assms]
  have "row \<in> set (filter (aoi_matches (ingredient_pk i) a) (amounts s1))"
    by simp
  then show ?thesis by auto
qed

lemma iir_create_frame:
  "amounts (IngredientInRecipe_objects_create cur recipe s) = amounts s"
  "Recipe_objects (IngredientInRecipe_objects_create cur recipe s) = Recipe_objects s"
  "joins (IngredientInRecipe_objects_create cur recipe s) = joins s @
     [\<lparr>iir_pk = next_pk (map iir_pk (joins s)), iir_amount_of_ingredient = aoi_pk cur,
       iir_recipe = recipe_pk recipe\<rparr>]"
  by (simp_all add: IngredientInRecipe_objects_create_def)

lemma iir_count_create:
  "iir_count r k (IngredientInRecipe_objects_create cur recipe s) =
     iir_count r k s + (if recipe_pk recipe = r \<and> aoi_pk cur = k then 1 else 0)"
  by (simp add: iir_count_def iir_create_frame)

lemma iir_count_goc:
  assumes "AmountOfIngredient_objects_get_or_create i a s = (res, s1)"
  shows "iir_count r k s1 = iir_count r k s"
  using goc_frame[OF assms] by (simp add: iir_count_def)

lemma unique_match:
  assumes "length (filter P xs) \<le> 1" "x \<in> set xs" "P x" "y \<in> set xs" "P y"
  shows "x = y"
proof -
  from assms(2,3) have x: "x \<in> set (filter P xs)" by simp
  from assms(4,5) have y: "y \<in> set (filter P xs)" by simp
  from assms(1) x y show ?thesis
    by (cases "filter P xs") (auto split: if_splits)
qed

lemma distinct_pk_eq:
  "distinct (map aoi_pk xs) \<Longrightarrow> x \<in> set xs \<Longrightarrow> y \<in> set xs \<Longrightarrow> aoi_pk x = aoi_pk y \<Longrightarrow> x = y"
  by (meson distinct_map inj_onD)


text \<open>The ingredient loop.\<close>

lemma create_ingredients_preserves:
  assumes step1: "\<And>i a s res s1. P s \<Longrightarrow>
      AmountOfIngredient_objects_get_or_create i a s = (res, s1) \<Longrightarrow> P s1"
    and step2: "\<And>cur s. P s \<Longrightarrow> P (IngredientInRecipe_objects_create cur recipe s)"
    and run: "create_ingredients recipe xs s = (res, s')"
    and init: "P s"
  shows "P s'"
  using run init
proof (induction xs arbitrary: s)
  case Nil
  then show ?case by simp
next
  case (Cons x xs)
  obtain i oa where x: "x = (i, oa)" by (cases x)
  show ?case
  proof (cases oa)
    case None
    with Cons.prems x show ?thesis by simp
  next
    case (Some a)
    obtain r1 s1 where g: "AmountOfIngredient_objects_get_or_create i a s = (r1, s1)"
      by (cases "AmountOfIngredient_objects_get_or_create i a s")
    have p1: "P s1" by (rule step1[OF Cons.prems(2) g])
    show ?thesis
    proof (cases r1)
      case (Inl e)
      with Cons.prems(1) x Some g p1 show ?thesis by simp
    next
      case (Inr cur)
      with Cons.prems(1) x Some g have rest:
        "create_ingredients recipe xs (IngredientInRecipe_objects_create cur recipe s1)
           = (res, s')"
        by simp
      have "P (IngredientInRecipe_objects_create cur recipe s1)" by (rule step2[OF p1])
      from Cons.IH[OF rest this] show ?thesis .
    qed
  qed
qed

lemma loop_count_le:
  assumes "create_ingredients recipe xs s = (res, s')"
    and "length (filter (aoi_matches p b) (amounts s)) \<le> 1"
  shows "length (filter (aoi_matches p b) (amounts s')) \<le> 1"
proof (rule create_ingredients_preserves[where P="\<lambda>s. length (filter (aoi_matches p b) (amounts s)) \<le> 1",
        OF _ _ assms])
  fix i a res and s s1 :: store
  assume "length (filter (aoi_matches p b) (amounts s)) \<le> 1"
    "AmountOfIngredient_objects_get_or_create i a s = (res, s1)"
  then show "length (filter (aoi_matches p b) (amounts s1)) \<le> 1"
    by (rule goc_count_le[rotated])
next
  fix cur and s :: store
  assume "length (filter (aoi_matches p b) (amounts s)) \<le> 1"
  then show "length (filter (aoi_matches p b)
      (amounts (IngredientInRecipe_objects_create cur recipe s))) \<le> 1"
    by (simp add: iir_create_frame)
qed

lemma loop_count_ge:
  assumes "create_ingredients recipe xs s = (res, s')"
    and "n \<le> length (filter (aoi_matches p b) (amounts s))"
  shows "n \<le> length (filter (aoi_matches p b) (amounts s'))"
proof (rule create_ingredients_preserves[where P="\<lambda>s. n \<le> length (filter (aoi_matches p b) (amounts s))",
        OF _ _ assms])
  fix i a res and s s1 :: store
  assume "n \<le> length (filter (aoi_matches p b) (amounts s))"
    "AmountOfIngredient_objects_get_or_create i a s = (res, s1)"
  then show "n \<le> length (filter (aoi_matches p b) (amounts s1))"
    using goc_mono[of i a s res s1 p b] by linarith
next
  fix cur and s :: store
  assume "n \<le> length (filter (aoi_matches p b) (amounts s))"
  then show "n \<le> length (filter (aoi_matches p b)
      (amounts (IngredientInRecipe_objects_create cur recipe s)))"
    by (simp add: iir_create_frame)
qed

lemma loop_distinct:
  assumes "create_ingredients recipe xs s = (res, s')"
    and "distinct (map aoi_pk (amounts s))"
  shows "distinct (map aoi_pk (amounts s'))"
proof (rule create_ingredients_preserves[where P="\<lambda>s. distinct (map aoi_pk (amounts s))",
        OF _ _ assms])
  fix i a res and s s1 :: store
  assume "distinct (map aoi_pk (amounts s))"
    "AmountOfIngredient_objects_get_or_create i a s = (res, s1)"
  then show "distinct (map aoi_pk (amounts s1))" by (rule goc_distinct[rotated])
next
  fix cur and s :: store
  assume "distinct (map aoi_pk (amounts s))"
  then show "distinct (map aoi_pk (amounts (IngredientInRecipe_objects_create cur recipe s)))"
    by (simp add: iir_create_frame)
qed

lemma loop_member:
  assumes "create_ingredients recipe xs s = (res, s')"
    and "row \<in> set (amounts s)"
  shows "row \<in> set (amounts s')"
proof (rule create_ingredients_preserves[where P="\<lambda>s. row \<in> set (amounts s)", OF _ _ assms])
  fix i a res and s s1 :: store
  assume "row \<in> set (amounts s)" "AmountOfIngredient_objects_get_or_create i a s = (res, s1)"
  then show "row \<in> set (amounts s1)" using goc_subset[of i a s res s1] by auto
next
  fix cur and s :: store
  assume "row \<in> set (amounts s)"
  then show "row \<in> set (amounts (IngredientInRecipe_objects_create cur recipe s))"
    by (simp add: iir_create_frame)
qed

lemma loop_recipes:
  assumes "create_ingredients recipe xs s = (res, s')"
  shows "Recipe_objects s' = Recipe_objects s"
proof (rule create_ingredients_preserves[where P="\<lambda>t. Recipe_objects t = Recipe_objects s",
        OF _ _ assms])
  fix i a res and t s1 :: store
  assume "Recipe_objects t = Recipe_objects s"
    "AmountOfIngredient_objects_get_or_create i a t = (res, s1)"
  then show "Recipe_objects s1 = Recipe_objects s" using goc_frame[of i a t res s1] by simp
next
  fix cur and t :: store
  assume "Recipe_objects t = Recipe_objects s"
  then show "Recipe_objects (IngredientInRecipe_objects_create cur recipe t) = Recipe_objects s"
    by (simp add: iir_create_frame)
qed simp

lemma loop_other_recipe:
  assumes "create_ingredients recipe xs s = (res, s')"
    and "r \<noteq> recipe_pk recipe"
  shows "iir_count r k s' = iir_count r k s"
proof (rule create_ingredients_preserves[where P="\<lambda>t. iir_count r k t = iir_count r k s",
        OF _ _ assms(1)])
  fix i a res and t s1 :: store
  assume "iir_count r k t = iir_count r k s"
    "AmountOfIngredient_objects_get_or_create i a t = (res, s1)"
  then show "iir_count r k s1 = iir_count r k s" using iir_count_goc[of i a t res s1 r k] by simp
next
  fix cur and t :: store
  assume "iir_count r k t = iir_count r k s"
  then show "iir_count r k (IngredientInRecipe_objects_create cur recipe t) = iir_count r k s"
    using assms(2) by (simp add: iir_count_create)
qed simp

lemma loop_fk:
  assumes "create_ingredients recipe xs s = (res, s')"
    and "recipe_pk recipe \<in> R"
    and "\<forall>j\<in>set (joins s). iir_recipe j \<in> R"
  shows "\<forall>j\<in>set (joins s'). iir_recipe j \<in> R"
proof (rule create_ingredients_preserves[where P="\<lambda>t. \<forall>j\<in>set (joins t). iir_recipe j \<in> R",
        OF _ _ assms(1) assms(3)])
  fix i a res and t s1 :: store
  assume "\<forall>j\<in>set (joins t). iir_recipe j \<in> R"
    "AmountOfIngredient_objects_get_or_create i a t = (res, s1)"
  then show "\<forall>j\<in>set (joins s1). iir_recipe j \<in> R" using goc_frame[of i a t res s1] by simp
next
  fix cur and t :: store
  assume "\<forall>j\<in>set (joins t). iir_recipe j \<in> R"
  then show "\<forall>j\<in>set (joins (IngredientInRecipe_objects_create cur recipe t)). iir_recipe j \<in> R"
    using assms(2) by (simp add: iir_create_frame)
qed

lemma loop_listed_once:
  assumes "create_ingredients recipe xs s = (Inr u, s')"
    and "(i, Some a) \<in> set xs"
  shows "length (filter (aoi_matches (ingredient_pk i) a) (amounts s')) = 1"
  using assms
proof (induction recipe xs s arbitrary: s' rule: create_ingredients.induct)
  case (1 recipe s)
  then show ?case by simp
next
  case (2 recipe i' ingredients s)
  then show ?case by simp
next
  case (3 recipe i' b ingredients s)
  obtain r1 s1 where g: "AmountOfIngredient_objects_get_or_create i' b s = (r1, s1)"
    by (cases "AmountOfIngredient_objects_get_or_create i' b s")
  from "3.prems"(1) g obtain cur where cur: "r1 = Inr cur"
    by (cases r1) simp_all
  let ?s2 = "IngredientInRecipe_objects_create cur recipe s1"
  from "3.prems"(1) g cur have rest:
    "create_ingredients recipe ingredients ?s2 = (Inr u, s')"
    by simp
  show ?case
  proof (cases "(i, Some a) \<in> set ingredients")
    case True
    show ?thesis by (rule "3.IH"[OF g[symmetric] cur rest True])
  next
    case False
    with "3.prems"(2) have same: "i' = i" "b = a" by simp_all
    from goc_success[OF g[unfolded cur]] same
    have "length (filter (aoi_matches (ingredient_pk i) a) (amounts ?s2)) = 1"
      by (simp add: iir_create_frame)
    with loop_count_le[OF rest, of "ingredient_pk i" a]
      loop_count_ge[OF rest, of 1 "ingredient_pk i" a]
    show ?thesis by linarith
  qed
qed

lemma loop_joins:
  assumes "create_ingredients recipe xs s = (Inr u, s')"
    and "distinct (map aoi_pk (amounts s))"
    and "length (filter (aoi_matches p a) (amounts s)) \<le> 1"
    and "row \<in> set (amounts s')" and "aoi_matches p a row"
  shows "iir_count (recipe_pk recipe) (aoi_pk row) s' =
         iir_count (recipe_pk recipe) (aoi_pk row) s + listings p a xs"
  using assms
proof (induction recipe xs s arbitrary: s' rule: create_ingredients.induct)
  case (1 recipe s)
  then show ?case by (simp add: listings_def)
next
  case (2 recipe i' ingredients s)
  then show ?case by simp
next
  case (3 recipe i' b ingredients s)
  obtain r1 s1 where g: "AmountOfIngredient_objects_get_or_create i' b s = (r1, s1)"
    by (cases "AmountOfIngredient_objects_get_or_create i' b s")
  from "3.prems"(1) g obtain cur where cur: "r1 = Inr cur"
    by (cases r1) simp_all
  note g' = g[unfolded cur]
  let ?s2 = "IngredientInRecipe_objects_create cur recipe s1"
  from "3.prems"(1) g cur have rest:
    "create_ingredients recipe ingredients ?s2 = (Inr u, s')"
    by simp
  have d2: "distinct (map aoi_pk (amounts ?s2))"
    using goc_distinct[OF g "3.prems"(2)] by (simp add: iir_create_frame)
  have c2: "length (filter (aoi_matches p a) (amounts ?s2)) \<le> 1"
    using goc_count_le[OF g "3.prems"(3)] by (simp add: iir_create_frame)
  have ih: "iir_count (recipe_pk recipe) (aoi_pk row) s' =
         iir_count (recipe_pk recipe) (aoi_pk row) ?s2 + listings p a ingredients"
    by (rule "3.IH"[OF g[symmetric] cur rest d2 c2 "3.prems"(4) "3.prems"(5)])
  have cur_in: "cur \<in> set (amounts s')"
    using goc_row[OF g'] loop_member[OF rest, of cur] by (simp add: iir_create_frame)
  have cur_match: "aoi_matches (ingredient_pk i') b cur" using goc_row[OF g'] by simp
  have d': "distinct (map aoi_pk (amounts s'))" by (rule loop_distinct[OF rest d2])
  have c': "length (filter (aoi_matches p a) (amounts s')) \<le> 1"
    by (rule loop_count_le[OF rest c2])
  have key: "aoi_pk cur = aoi_pk row \<longleftrightarrow> (ingredient_pk i' = p \<and> b = a)"
  proof
    assume "aoi_pk cur = aoi_pk row"
    with distinct_pk_eq[OF d' cur_in "3.prems"(4)] have "cur = row" by simp
    with cur_match "3.prems"(5) show "ingredient_pk i' = p \<and> b = a"
      by (simp add: aoi_matches_def)
  next
    assume "ingredient_pk i' = p \<and> b = a"
    with cur_match have "aoi_matches p a cur" by simp
    from unique_match[OF c' cur_in this "3.prems"(4) "3.prems"(5)]
    show "aoi_pk cur = aoi_pk row" by simp
  qed
  have "iir_count (recipe_pk recipe) (aoi_pk row) ?s2 =
        iir_count (recipe_pk recipe) (aoi_pk row) s +
          (if ingredient_pk i' = p \<and> b = a then 1 else 0)"
    using key by (simp add: iir_count_create iir_count_goc[OF g])
  moreover have "listings p a ((i', Some b) # ingredients) =
      (if ingredient_pk i' = p \<and> b = a then 1 else 0) + listings p a ingredients"
    by (simp add: listings_def)
  ultimately show ?case using ih by simp
qed


text \<open>The tag loop leaves the ingredient tables alone.\<close>

lemma create_tags_frame:
  "create_tags recipe ts s = (res, s') \<Longrightarrow>
   amounts s' = amounts s \<and> joins s' = joins s \<and> Recipe_objects s' = Recipe_objects s"
proof (induction ts arbitrary: s)
  case Nil
  then show ?case by simp
next
  case (Cons t ts)
  obtain r1 s1 where g: "Tag_objects_get_or_create (tag_pk t) s = (r1, s1)"
    by (cases "Tag_objects_get_or_create (tag_pk t) s")
  then have f1: "amounts s1 = amounts s \<and> joins s1 = joins s \<and> Recipe_objects s1 = Recipe_objects s"
    by (auto simp: Tag_objects_get_or_create_def Let_def split: option.splits if_splits)
  show ?case
  proof (cases r1)
    case (Inl e)
    with Cons.prems g f1 show ?thesis by simp
  next
    case (Inr cur)
    with Cons.prems g have rest:
      "create_tags recipe ts (TagInRecipe_objects_create cur recipe s1) = (res, s')"
      by simp
    from Cons.IH[OF rest] f1 show ?thesis
      by (simp add: TagInRecipe_objects_create_def)
  qed
qed

lemma dict_pop_get: "dict_pop d k = Inr (v, d') \<Longrightarrow> dict_get d k = Some v"
  by (auto simp: dict_pop_def dict_get_def split: option.splits)

lemma create_success:
  assumes "RecipeCreateSerializer_create ctx vd s = (Inr r, s')"
  obtains xs ts sB where
    "dict_get vd ''ingredients'' = Some (VIngredients xs)"
    "recipe_pk r = next_pk (map recipe_pk (Recipe_objects s))"
    "amounts sB = amounts s" "joins sB = joins s"
    "Recipe_objects sB = Recipe_objects s @ [r]"
    "create_ingredients r xs sB = (Inr (), s')"
proof -
  from assms obtain ingredients vd1 where p1: "dict_pop vd ''ingredients'' = Inr (ingredients, vd1)"
    by (cases "dict_pop vd ''ingredients''") (auto simp: RecipeCreateSerializer_create_def)
  from assms p1 obtain tags vd2 where p2: "dict_pop vd1 ''tags'' = Inr (tags, vd2)"
    by (cases "dict_pop vd1 ''tags''") (auto simp: RecipeCreateSerializer_create_def)
  from assms p1 p2 obtain request where c: "ctx = Some request"
    by (cases ctx) (auto simp: RecipeCreateSerializer_create_def)
  from assms p1 p2 c obtain author where a: "request_user request = Authenticated author"
    by (cases "request_user request") (auto simp: RecipeCreateSerializer_create_def)
  obtain recipe sA where rc: "Recipe_objects_create (user_pk author) vd2 s = (recipe, sA)"
    by (cases "Recipe_objects_create (user_pk author) vd2 s")
  from assms p1 p2 c a rc obtain ts where t: "tags = VTags ts"
    by (cases tags) (auto simp: RecipeCreateSerializer_create_def)
  obtain r2 sB where ct: "create_tags recipe ts sA = (r2, sB)"
    by (cases "create_tags recipe ts sA")
  from assms p1 p2 c a rc t ct have r2: "r2 = Inr ()"
    by (cases r2) (auto simp: RecipeCreateSerializer_create_def)
  from assms p1 p2 c a rc t ct r2 obtain xs where x: "ingredients = VIngredients xs"
    by (cases ingredients) (auto simp: RecipeCreateSerializer_create_def)
  obtain r3 s3 where ci: "create_ingredients recipe xs sB = (r3, s3)"
    by (cases "create_ingredients recipe xs sB")
  from assms p1 p2 c a rc t ct r2 x ci have fin: "r3 = Inr ()" "recipe = r" "s3 = s'"
    by (cases r3; auto simp: RecipeCreateSerializer_create_def)+
  from rc have A: "recipe_pk recipe = next_pk (map recipe_pk (Recipe_objects s))"
    "amounts sA = amounts s" "joins sA = joins s"
    "Recipe_objects sA = Recipe_objects s @ [recipe]"
    by (auto simp: Recipe_objects_create_def Let_def)
  from create_tags_frame[OF ct] A
  have B: "amounts sB = amounts s" "joins sB = joins s"
    "Recipe_objects sB = Recipe_objects s @ [recipe]"
    by simp_all
  show ?thesis
    using that[of xs sB] dict_pop_get[OF p1] x A(1) B ci fin by simp
qed

lemma iir_count_fresh:
  assumes "\<forall>j\<in>set (joins s). iir_recipe j \<in> R" "r \<notin> R"
  shows "iir_count r k s = 0"
  using assms by (auto simp: iir_count_def filter_empty_conv)

lemma iir_count_cong: "joins s = joins t \<Longrightarrow> iir_count r k s = iir_count r k t"
  by (simp add: iir_count_def)

lemma length_filter_one: "length (filter P xs) = 1 \<Longrightarrow> \<exists>x. filter P xs = [x]"
  by (cases "filter P xs") auto

text \<open>
  Claim C3, as the code has it. Two recipe creations that both succeed and both list
  ingredient \<open>p\<close> with amount \<open>a\<close> leave exactly one AmountOfIngredient row for that pair.
  Both recipes are linked to that one row, each by as many IngredientInRecipe rows as its
  request lists the pair: by one row when the request lists it once, by more when it
  lists it again.
\<close>

theorem shared_amount_of_ingredient:
  assumes ok: "store_ok s"
    and c1: "RecipeCreateSerializer_create context1 validated_data1 s = (Inr recipe1, s1)"
    and c2: "RecipeCreateSerializer_create context2 validated_data2 s1 = (Inr recipe2, s2)"
    and l1: "dict_get validated_data1 ''ingredients'' = Some (VIngredients ingredients1)"
      "(i1, Some a) \<in> set ingredients1" "ingredient_pk i1 = p"
    and l2: "dict_get validated_data2 ''ingredients'' = Some (VIngredients ingredients2)"
      "(i2, Some a) \<in> set ingredients2" "ingredient_pk i2 = p"
  shows "\<exists>row. filter (aoi_matches p a) (AmountOfIngredient_objects s2) = [row] \<and>
           iir_count (recipe_pk recipe1) (aoi_pk row) s2 = listings p a ingredients1 \<and>
           iir_count (recipe_pk recipe2) (aoi_pk row) s2 = listings p a ingredients2 \<and>
           recipe_pk recipe1 \<noteq> recipe_pk recipe2"
proof -
  from ok have d0: "distinct (map aoi_pk (amounts s))"
    and fk0: "\<forall>j\<in>set (joins s). iir_recipe j \<in> set (map recipe_pk (Recipe_objects s))"
    by (simp_all add: store_ok_def list_all_iff)
  obtain xs1 sB1 where A:
    "dict_get validated_data1 ''ingredients'' = Some (VIngredients xs1)"
    "recipe_pk recipe1 = next_pk (map recipe_pk (Recipe_objects s))"
    "amounts sB1 = amounts s" "joins sB1 = joins s"
    "Recipe_objects sB1 = Recipe_objects s @ [recipe1]"
    "create_ingredients recipe1 xs1 sB1 = (Inr (), s1)"
    by (rule create_success[OF c1])
  from A(1) l1(1) have xs1: "xs1 = ingredients1" by simp
  note loop1 = A(6)[unfolded xs1]
  have one1: "length (filter (aoi_matches p a) (amounts s1)) = 1"
    using loop_listed_once[OF loop1 l1(2)] l1(3) by simp
  have le_B1: "length (filter (aoi_matches p a) (amounts sB1)) \<le> 1"
  proof (rule ccontr)
    assume "\<not> length (filter (aoi_matches p a) (amounts sB1)) \<le> 1"
    then have "2 \<le> length (filter (aoi_matches p a) (amounts sB1))" by simp
    from loop_count_ge[OF loop1 this] one1 show False by simp
  qed
  have dB1: "distinct (map aoi_pk (amounts sB1))" using d0 A(3) by simp
  have d1: "distinct (map aoi_pk (amounts s1))" by (rule loop_distinct[OF loop1 dB1])
  have rec1: "Recipe_objects s1 = Recipe_objects s @ [recipe1]"
    using loop_recipes[OF loop1] A(5) by simp
  have fresh1: "recipe_pk recipe1 \<notin> set (map recipe_pk (Recipe_objects s))"
    using next_pk_notin[of "map recipe_pk (Recipe_objects s)"] A(2) by simp
  have zero1: "iir_count (recipe_pk recipe1) k sB1 = 0" for k
    using iir_count_fresh[OF fk0 fresh1, of k] iir_count_cong[OF A(4), of "recipe_pk recipe1" k]
    by simp
  have fk1: "\<forall>j\<in>set (joins s1). iir_recipe j \<in> set (map recipe_pk (Recipe_objects s1))"
  proof (rule loop_fk[OF loop1])
    show "recipe_pk recipe1 \<in> set (map recipe_pk (Recipe_objects s1))" using rec1 by simp
    show "\<forall>j\<in>set (joins sB1). iir_recipe j \<in> set (map recipe_pk (Recipe_objects s1))"
      using fk0 A(4) rec1 by auto
  qed
  obtain xs2 sB2 where B:
    "dict_get validated_data2 ''ingredients'' = Some (VIngredients xs2)"
    "recipe_pk recipe2 = next_pk (map recipe_pk (Recipe_objects s1))"
    "amounts sB2 = amounts s1" "joins sB2 = joins s1"
    "Recipe_objects sB2 = Recipe_objects s1 @ [recipe2]"
    "create_ingredients recipe2 xs2 sB2 = (Inr (), s2)"
    by (rule create_success[OF c2])
  from B(1) l2(1) have xs2: "xs2 = ingredients2" by simp
  note loop2 = B(6)[unfolded xs2]
  have fresh2: "recipe_pk recipe2 \<notin> set (map recipe_pk (Recipe_objects s1))"
    using next_pk_notin[of "map recipe_pk (Recipe_objects s1)"] B(2) by simp
  have ne: "recipe_pk recipe1 \<noteq> recipe_pk recipe2"
    using fresh2 rec1 by auto
  have le_B2: "length (filter (aoi_matches p a) (amounts sB2)) \<le> 1"
    using one1 B(3) by simp
  have dB2: "distinct (map aoi_pk (amounts sB2))" using d1 B(3) by simp
  have one2: "length (filter (aoi_matches p a) (amounts s2)) = 1"
    using loop_listed_once[OF loop2 l2(2)] l2(3) by simp
  then obtain row where row: "filter (aoi_matches p a) (amounts s2) = [row]"
    using length_filter_one by blast
  then have "row \<in> set (filter (aoi_matches p a) (amounts s2))" by simp
  then have row_in: "row \<in> set (amounts s2)" and row_match: "aoi_matches p a row" by auto
  from one1 obtain row1 where row1: "filter (aoi_matches p a) (amounts s1) = [row1]"
    using length_filter_one by blast
  then have "row1 \<in> set (filter (aoi_matches p a) (amounts s1))" by simp
  then have row1_in: "row1 \<in> set (amounts s1)" and row1_match: "aoi_matches p a row1" by auto
  have "row1 \<in> set (amounts s2)"
    using loop_member[OF loop2, of row1] row1_in B(3) by simp
  from unique_match[OF _ this row1_match row_in row_match] one2
  have same: "row1 = row" by simp
  have j1: "iir_count (recipe_pk recipe1) (aoi_pk row) s1 = listings p a ingredients1"
    using loop_joins[OF loop1 dB1 le_B1 row1_in row1_match] zero1 same by simp
  have "iir_count (recipe_pk recipe1) (aoi_pk row) s2 =
        iir_count (recipe_pk recipe1) (aoi_pk row) sB2"
    by (rule loop_other_recipe[OF loop2 ne])
  also have "\<dots> = iir_count (recipe_pk recipe1) (aoi_pk row) s1"
    by (rule iir_count_cong[OF B(4)])
  finally have r1: "iir_count (recipe_pk recipe1) (aoi_pk row) s2 = listings p a ingredients1"
    using j1 by simp
  have zero2: "iir_count (recipe_pk recipe2) (aoi_pk row) sB2 = 0"
    using iir_count_fresh[OF fk1 fresh2, of "aoi_pk row"]
      iir_count_cong[OF B(4), of "recipe_pk recipe2" "aoi_pk row"] by simp
  have r2: "iir_count (recipe_pk recipe2) (aoi_pk row) s2 = listings p a ingredients2"
    using loop_joins[OF loop2 dB2 le_B2 row_in row_match] zero2 by simp
  from row r1 r2 ne show ?thesis by blast
qed



lemmas create_defs = RecipeCreateSerializer_create_def dict_pop_def
  Recipe_objects_create_def next_pk_def Tag_objects_get_or_create_def
  TagInRecipe_objects_create_def AmountOfIngredient_objects_get_or_create_def
  IngredientInRecipe_objects_create_def aoi_matches_def Let_def

lemmas salt_defs = soup_validated_data_def stew_validated_data_def soup_recipe_def
  stew_recipe_def store_after_soup_def store_after_stew_def

lemma create_soup:
  "RecipeCreateSerializer_create example_context soup_validated_data example_store
     = (Inr soup_recipe, store_after_soup)"
  by (simp add: example_defs salt_defs create_defs)

lemma create_stew:
  "RecipeCreateSerializer_create example_context stew_validated_data store_after_soup
     = (Inr stew_recipe, store_after_stew)"
  by (simp add: example_defs salt_defs create_defs)

theorem shared_amount_of_ingredient_witness:
  "store_ok example_store \<and>
   RecipeCreateSerializer_create example_context soup_validated_data example_store
     = (Inr soup_recipe, store_after_soup) \<and>
   RecipeCreateSerializer_create example_context stew_validated_data store_after_soup
     = (Inr stew_recipe, store_after_stew) \<and>
   dict_get soup_validated_data ''ingredients'' = Some (VIngredients [(salt, Some 200)]) \<and>
   dict_get stew_validated_data ''ingredients'' = Some (VIngredients [(salt, Some 200)]) \<and>
   ingredient_pk salt = 5 \<and>
   (\<exists>row. filter (aoi_matches 5 200) (AmountOfIngredient_objects store_after_stew) = [row] \<and>
      iir_count 1 (aoi_pk row) store_after_stew = 1 \<and>
      iir_count 2 (aoi_pk row) store_after_stew = 1)"
proof -
  have ok: "store_ok example_store" by (simp add: store_ok_def example_store_def)
  have g1: "dict_get soup_validated_data ''ingredients'' = Some (VIngredients [(salt, Some 200)])"
    by (simp add: dict_get_def soup_validated_data_def)
  have g2: "dict_get stew_validated_data ''ingredients'' = Some (VIngredients [(salt, Some 200)])"
    by (simp add: dict_get_def stew_validated_data_def)
  have pk: "ingredient_pk salt = 5" by (simp add: salt_def)
  have m: "(salt, Some 200) \<in> set [(salt, Some (200::int))]" by simp
  from shared_amount_of_ingredient[OF ok create_soup create_stew g1 m pk g2 m pk]
  have "\<exists>row. filter (aoi_matches 5 200) (AmountOfIngredient_objects store_after_stew) = [row] \<and>
      iir_count 1 (aoi_pk row) store_after_stew = 1 \<and>
      iir_count 2 (aoi_pk row) store_after_stew = 1"
    by (simp add: listings_def soup_recipe_def stew_recipe_def salt_def)
  with ok create_soup create_stew g1 g2 pk show ?thesis by simp
qed


section \<open>What a creation leaves in the store\<close>







lemma links_mono:
  assumes "links s r j x" "set (amounts s) \<subseteq> set (amounts t)"
  shows "links t r j x"
  using assms by (auto simp: links_def list_ex_iff)













section \<open>The validation loops of the framework\<close>


lemma dict_get_dict_set: "dict_get (dict_set d k v) k' = (if k' = k then Some v else dict_get d k')"
  by (induction d) (auto simp: dict_get_def)

lemma dict_get_filter_other:
  "k' \<noteq> k \<Longrightarrow> dict_get (filter (\<lambda>kv. fst kv \<noteq> k) d) k' = dict_get d k'"
  by (induction d) (auto simp: dict_get_def)

lemma dict_pop_present:
  "dict_get d k = Some v \<Longrightarrow> dict_pop d k = Inr (v, filter (\<lambda>kv. fst kv \<noteq> k) d)"
  by (simp add: dict_get_def dict_pop_def)

lemma dict_pop_absent: "dict_get d k = None \<Longrightarrow> dict_pop d k = Inl KeyError"
  by (simp add: dict_get_def dict_pop_def)

text \<open>The list serializer.\<close>

lemma run_children_valid:
  "list_all2 (\<lambda>item t. child item = Inr t) items ts \<Longrightarrow>
   run_children child items ret errs =
     Inr (ret @ ts, errs @ replicate (length items) (Fields []))"
proof (induction items arbitrary: ts ret errs)
  case Nil
  then show ?case by simp
next
  case (Cons item items)
  then obtain t ts' where ts: "ts = t # ts'" "child item = Inr t"
    "list_all2 (\<lambda>item t. child item = Inr t) items ts'"
    by (auto simp: list_all2_Cons1)
  from Cons.IH[OF ts(3), of "ret @ [t]" "errs @ [Fields []]"] ts(1,2)
  show ?case by (simp add: replicate_append_same)
qed

lemma run_children_keeps_error:
  "run_children child items ret errs = Inr (ret', errs') \<Longrightarrow>
   list_ex P errs \<Longrightarrow> list_ex P errs'"
proof (induction items arbitrary: ret errs)
  case Nil
  then show ?case by simp
next
  case (Cons item items)
  show ?case
  proof (cases "child item")
    case (Inr v)
    with Cons.prems have "run_children child items (ret @ [v]) (errs @ [Fields []]) = Inr (ret', errs')"
      by simp
    from Cons.IH[OF this] Cons.prems(2) show ?thesis by simp
  next
    case (Inl err)
    with Cons.prems obtain d where d: "err = ValidationError d"
      by (cases err) simp_all
    with Inl Cons.prems have "run_children child items ret (errs @ [d]) = Inr (ret', errs')"
      by simp
    from Cons.IH[OF this] Cons.prems(2) show ?thesis by simp
  qed
qed

lemma settles_cases:
  assumes "settles child item"
  obtains (valid) t where "child item = Inr t"
  | (invalid) d where "child item = Inl (ValidationError d)" "d \<noteq> Fields []"
  using assms unfolding settles_def
  by (cases "child item") (auto split: error.splits)

lemma run_children_invalid:
  "list_all (settles child) items \<Longrightarrow>
   \<not> (\<exists>ts. list_all2 (\<lambda>item t. child item = Inr t) items ts) \<Longrightarrow>
   \<exists>ret' errs'. run_children child items ret errs = Inr (ret', errs') \<and>
     list_ex (\<lambda>d. d \<noteq> Fields []) errs'"
proof (induction items arbitrary: ret errs)
  case Nil
  then show ?case by simp
next
  case (Cons item items)
  from Cons.prems(1) have st: "settles child item" and rest: "list_all (settles child) items"
    by simp_all
  from st show ?case
  proof (cases rule: settles_cases)
    case (valid t)
    have "\<not> (\<exists>ts. list_all2 (\<lambda>item t. child item = Inr t) items ts)"
    proof
      assume "\<exists>ts. list_all2 (\<lambda>item t. child item = Inr t) items ts"
      then obtain ts where "list_all2 (\<lambda>item t. child item = Inr t) items ts" by blast
      with valid have "list_all2 (\<lambda>item t. child item = Inr t) (item # items) (t # ts)" by simp
      with Cons.prems(2) show False by blast
    qed
    from Cons.IH[OF rest this, of "ret @ [t]" "errs @ [Fields []]"] valid
    show ?thesis by simp
  next
    case (invalid d)
    have all_settle: "\<exists>ret' errs'. run_children child items r es = Inr (ret', errs')"
      if "list_all (settles child) items" for r es
      using that
    proof (induction items arbitrary: r es)
      case Nil
      then show ?case by simp
    next
      case (Cons x xs)
      from Cons.prems have "settles child x" "list_all (settles child) xs" by simp_all
      from this(1) show ?case
      proof (cases rule: settles_cases)
        case (valid t)
        with Cons.IH[OF \<open>list_all (settles child) xs\<close>, of "r @ [t]" "es @ [Fields []]"]
        show ?thesis by simp
      next
        case (invalid d)
        with Cons.IH[OF \<open>list_all (settles child) xs\<close>, of r "es @ [d]"]
        show ?thesis by simp
      qed
    qed
    from all_settle[OF rest, of ret "errs @ [d]"] obtain ret' errs' where
      r: "run_children child items ret (errs @ [d]) = Inr (ret', errs')" by blast
    have "list_ex (\<lambda>d. d \<noteq> Fields []) (errs @ [d])" using invalid(2) by simp
    from run_children_keeps_error[OF r this] r invalid(1) show ?thesis by simp
  qed
qed

lemma ListSerializer_valid_iff:
  assumes "list_all (settles child) items"
  shows "ListSerializer_to_internal_value child (PList items) = Inr ts \<longleftrightarrow>
         list_all2 (\<lambda>item t. child item = Inr t) items ts"
proof
  assume v: "list_all2 (\<lambda>item t. child item = Inr t) items ts"
  show "ListSerializer_to_internal_value child (PList items) = Inr ts"
    using run_children_valid[OF v, of "[]" "[]"]
    by (simp add: ListSerializer_to_internal_value_def list_ex_iff)
next
  assume r: "ListSerializer_to_internal_value child (PList items) = Inr ts"
  have "\<exists>ts'. list_all2 (\<lambda>item t. child item = Inr t) items ts'"
  proof (rule ccontr)
    assume "\<not> (\<exists>ts'. list_all2 (\<lambda>item t. child item = Inr t) items ts')"
    from run_children_invalid[OF assms this, of "[]" "[]"] r show False
      by (auto simp: ListSerializer_to_internal_value_def)
  qed
  then obtain ts' where v: "list_all2 (\<lambda>item t. child item = Inr t) items ts'" by blast
  from run_children_valid[OF v, of "[]" "[]"] r have "ts' = ts"
    by (simp add: ListSerializer_to_internal_value_def list_ex_iff)
  with v show "list_all2 (\<lambda>item t. child item = Inr t) items ts" by simp
qed

lemma ListSerializer_invalid:
  assumes "list_all (settles child) items"
    and "\<not> (\<exists>ts. list_all2 (\<lambda>item t. child item = Inr t) items ts)"
  shows "\<exists>errs. ListSerializer_to_internal_value child (PList items)
           = Inl (ValidationError (Items errs))"
  using run_children_invalid[OF assms, of "[]" "[]"]
  by (auto simp: ListSerializer_to_internal_value_def)


section \<open>Tag identifiers\<close>


lemma tag_child_wrapped:
  "TagsInRecipeSerializer_run_validation e s (wrap_tag v) =
     (case PrimaryKeyRelatedField_to_internal_value (int_of_str e) tag_pk (Tag_objects s) v of
        Inl x \<Rightarrow> Inl (ValidationError (Fields [(''id'', if v = PNone then Code ''null'' else x)]))
      | Inr t \<Rightarrow> Inr t)"
  by (cases v)
    (auto simp: TagsInRecipeSerializer_run_validation_def wrap_tag_def dict_get_def
      required_value_def PrimaryKeyRelatedField_to_internal_value_def
      split: sum.splits option.splits)

lemma catch_Valid_iff: "catch r = Valid v \<longleftrightarrow> r = Inr v"
proof (cases r)
  case (Inl err)
  then show ?thesis by (cases err) simp_all
next
  case (Inr x)
  then show ?thesis by simp
qed

lemma catch_not_Skip: "catch r \<noteq> Skip"
proof (cases r)
  case (Inl err)
  then show ?thesis by (cases err) simp_all
next
  case (Inr x)
  then show ?thesis by simp
qed

lemma catch_Invalid: "catch (Inl (ValidationError d)) = Invalid d"
  by simp

lemma tag_child_settles: "settles (TagsInRecipeSerializer_run_validation e s) (wrap_tag v)"
  by (simp add: settles_def tag_child_wrapped split: sum.splits)

lemma tag_child_valid_iff:
  "TagsInRecipeSerializer_run_validation e s (wrap_tag v) = Inr t \<longleftrightarrow>
   PrimaryKeyRelatedField_to_internal_value (int_of_str e) tag_pk (Tag_objects s) v = Inr t"
  by (simp add: tag_child_wrapped split: sum.splits)

lemma queryset_get_row:
  "queryset_get pk rows n = Inr r \<Longrightarrow> r \<in> set rows \<and> pk r = n"
  by (auto simp: queryset_get_def find_Some_iff split: option.splits)

lemma PrimaryKeyRelatedField_row:
  assumes "PrimaryKeyRelatedField_to_internal_value to_int pk rows v = Inr r"
  shows "r \<in> set rows \<and> (\<forall>n. v = PInt n \<longrightarrow> pk r = n)"
proof (cases v)
  case (PInt n)
  with assms have "queryset_get pk rows n = Inr r"
    by (simp add: PrimaryKeyRelatedField_to_internal_value_def)
  from queryset_get_row[OF this] PInt show ?thesis by simp
next
  case (PStr x)
  with assms obtain n where "queryset_get pk rows n = Inr r"
    by (auto simp: PrimaryKeyRelatedField_to_internal_value_def split: option.splits)
  from queryset_get_row[OF this] PStr show ?thesis by simp
qed (use assms in \<open>simp_all add: PrimaryKeyRelatedField_to_internal_value_def\<close>)

lemma to_internal_value_normalises:
  assumes "dict_get data ''tags'' = Some (PList vs)"
  shows "RecipeCreateSerializer_to_internal_value super_tiv data =
     super_tiv (dict_set (filter (\<lambda>kv. fst kv \<noteq> ''tags'') data) ''tags'' (PList (map wrap_tag vs)))"
  using dict_pop_present[OF assms]
  by (simp add: RecipeCreateSerializer_to_internal_value_def)

lemma tags_field_wrapped:
  assumes "dict_get data' ''tags'' = Some (PList (map wrap_tag vs))"
  shows "tags_field e s data' = Valid (VTags ts) \<longleftrightarrow>
     list_all2 (\<lambda>v t. PrimaryKeyRelatedField_to_internal_value (int_of_str e) tag_pk
                         (Tag_objects s) v = Inr t) vs ts"
proof -
  let ?child = "TagsInRecipeSerializer_run_validation e s"
  have st: "list_all (settles ?child) (map wrap_tag vs)"
    by (simp add: list_all_iff tag_child_settles)
  have "tags_field e s data' = Valid (VTags ts) \<longleftrightarrow>
        ListSerializer_to_internal_value ?child (PList (map wrap_tag vs)) = Inr ts"
    using assms
    by (cases "ListSerializer_to_internal_value ?child (PList (map wrap_tag vs))")
       (simp_all add: tags_field_def required_value_def catch_Valid_iff)
  also have "\<dots> \<longleftrightarrow> list_all2 (\<lambda>item t. ?child item = Inr t) (map wrap_tag vs) ts"
    by (rule ListSerializer_valid_iff[OF st])
  also have "\<dots> \<longleftrightarrow> list_all2 (\<lambda>v t. PrimaryKeyRelatedField_to_internal_value (int_of_str e)
      tag_pk (Tag_objects s) v = Inr t) vs ts"
    by (simp add: list_all2_map1 tag_child_valid_iff)
  finally show ?thesis .
qed

text \<open>
  C9. For a payload whose \<^verbatim>\<open>tags\<close> entry is a list, deserialization replaces every item
  \<open>v\<close> of the list by \<^verbatim>\<open>{'id': v}\<close>, leaves the other entries as they are, and hands that
  payload to the superclass validation. There the tags field is valid, with the tags
  \<open>ts\<close>, exactly when every identifier is resolved by the primary-key field to the tag at
  its position, and a resolved tag is a row of the Tag table (with the identifier as its
  key, for an integer identifier).
\<close>

theorem tags_normalised_before_validation:
  assumes "dict_get data ''tags'' = Some (PList vs)"
  shows "\<exists>data'.
      data' = dict_set (filter (\<lambda>kv. fst kv \<noteq> ''tags'') data) ''tags''
                (PList (map wrap_tag vs)) \<and>
      RecipeCreateSerializer_to_internal_value super_to_internal_value data
        = super_to_internal_value data' \<and>
      dict_get data' ''tags'' = Some (PList (map (\<lambda>v. PDict [(''id'', v)]) vs)) \<and>
      (\<forall>k. k \<noteq> ''tags'' \<longrightarrow> dict_get data' k = dict_get data k) \<and>
      (\<forall>ts. tags_field e s data' = Valid (VTags ts) \<longleftrightarrow>
         list_all2 (\<lambda>v t. PrimaryKeyRelatedField_to_internal_value (int_of_str e) tag_pk
                             (Tag_objects s) v = Inr t) vs ts) \<and>
      (\<forall>v t. PrimaryKeyRelatedField_to_internal_value (int_of_str e) tag_pk
                (Tag_objects s) v = Inr t \<longrightarrow>
             t \<in> set (Tag_objects s) \<and> (\<forall>n. v = PInt n \<longrightarrow> tag_pk t = n))"
proof (intro exI conjI)
  let ?data' = "dict_set (filter (\<lambda>kv. fst kv \<noteq> ''tags'') data) ''tags''
                (PList (map wrap_tag vs))"
  show "?data' = ?data'" by (rule refl)
  show "RecipeCreateSerializer_to_internal_value super_to_internal_value data
        = super_to_internal_value ?data'"
    by (rule to_internal_value_normalises[OF assms])
  have b: "dict_get ?data' ''tags'' = Some (PList (map wrap_tag vs))"
    by (simp add: dict_get_dict_set)
  then show "dict_get ?data' ''tags'' = Some (PList (map (\<lambda>v. PDict [(''id'', v)]) vs))"
    by (simp add: wrap_tag_def)
  show "\<forall>k. k \<noteq> ''tags'' \<longrightarrow> dict_get ?data' k = dict_get data k"
    by (simp add: dict_get_dict_set dict_get_filter_other)
  show "\<forall>ts. tags_field e s ?data' = Valid (VTags ts) \<longleftrightarrow>
         list_all2 (\<lambda>v t. PrimaryKeyRelatedField_to_internal_value (int_of_str e) tag_pk
                             (Tag_objects s) v = Inr t) vs ts"
    by (intro allI) (rule tags_field_wrapped[OF b])
  show "\<forall>v t. PrimaryKeyRelatedField_to_internal_value (int_of_str e) tag_pk
                (Tag_objects s) v = Inr t \<longrightarrow>
             t \<in> set (Tag_objects s) \<and> (\<forall>n. v = PInt n \<longrightarrow> tag_pk t = n)"
    by (intro allI impI) (rule PrimaryKeyRelatedField_row)
qed



lemma lookup_breakfast:
  "PrimaryKeyRelatedField_to_internal_value (int_of_str example_env) tag_pk
     (Tag_objects example_store) (PInt 1) = Inr breakfast"
  by (simp add: PrimaryKeyRelatedField_to_internal_value_def queryset_get_def
      example_store_def breakfast_def)

theorem tags_normalised_before_validation_witness:
  "dict_get [(''tags'', PList [PInt 1]), (''name'', PStr ''soup'')] ''tags''
     = Some (PList [PInt 1]) \<and>
   RecipeCreateSerializer_to_internal_value (\<lambda>d. Inr d)
     [(''tags'', PList [PInt 1]), (''name'', PStr ''soup'')]
     = Inr [(''name'', PStr ''soup''), (''tags'', PList [PDict [(''id'', PInt 1)]])] \<and>
   tags_field example_env example_store
     [(''name'', PStr ''soup''), (''tags'', PList [PDict [(''id'', PInt 1)]])]
     = Valid (VTags [breakfast])"
proof -
  have g: "dict_get [(''tags'', PList [PInt 1]), (''name'', PStr ''soup'')] ''tags''
     = Some (PList [PInt 1])"
    by (simp add: dict_get_def)
  from tags_normalised_before_validation[OF g, of "\<lambda>d. Inr d" example_env example_store]
  obtain data' where
    d: "data' = dict_set (filter (\<lambda>kv. fst kv \<noteq> ''tags'')
                 [(''tags'', PList [PInt 1]), (''name'', PStr ''soup'')]) ''tags''
                (PList (map wrap_tag [PInt 1]))"
    and r: "RecipeCreateSerializer_to_internal_value (\<lambda>d. Inr d)
              [(''tags'', PList [PInt 1]), (''name'', PStr ''soup'')] = Inr data'"
    and v: "\<forall>ts. tags_field example_env example_store data' = Valid (VTags ts) \<longleftrightarrow>
         list_all2 (\<lambda>v t. PrimaryKeyRelatedField_to_internal_value (int_of_str example_env)
                             tag_pk (Tag_objects example_store) v = Inr t) [PInt 1] ts"
    by blast
  from d have d': "data' = [(''name'', PStr ''soup''), (''tags'', PList [PDict [(''id'', PInt 1)]])]"
    by (simp add: wrap_tag_def)
  from v have "tags_field example_env example_store data' = Valid (VTags [breakfast])"
    using lookup_breakfast by simp
  with g r d' show ?thesis by simp
qed

section \<open>The field loop of the serializer\<close>

lemma run_fields_errors_grow:
  "run_fields fs data ret errs = Inr (ret', errs') \<Longrightarrow> \<exists>more. errs' = errs @ more"
proof (induction fs arbitrary: ret errs)
  case Nil
  then show ?case by simp
next
  case (Cons f fs)
  show ?case
  proof (cases "snd f data")
    case (Valid v)
    with Cons.prems have "run_fields fs data (dict_set ret (fst f) v) errs = Inr (ret', errs')"
      by simp
    from Cons.IH[OF this] show ?thesis .
  next
    case (Invalid d)
    with Cons.prems have "run_fields fs data ret (errs @ [(fst f, d)]) = Inr (ret', errs')"
      by simp
    from Cons.IH[OF this] show ?thesis by auto
  next
    case Skip
    with Cons.prems have "run_fields fs data ret errs = Inr (ret', errs')" by simp
    from Cons.IH[OF this] show ?thesis .
  next
    case (Raise err)
    with Cons.prems show ?thesis by simp
  qed
qed

lemma run_fields_invalid_recorded:
  "run_fields fs data ret errs = Inr (ret', errs') \<Longrightarrow> f \<in> set fs \<Longrightarrow>
   snd f data = Invalid d \<Longrightarrow> (fst f, d) \<in> set errs'"
proof (induction fs arbitrary: ret errs)
  case Nil
  then show ?case by simp
next
  case (Cons g fs)
  show ?case
  proof (cases "g = f")
    case True
    with Cons.prems have "run_fields fs data ret (errs @ [(fst f, d)]) = Inr (ret', errs')"
      by simp
    from run_fields_errors_grow[OF this] show ?thesis by auto
  next
    case False
    with Cons.prems(2) have mem: "f \<in> set fs" by simp
    show ?thesis
    proof (cases "snd g data")
      case (Valid v)
      with Cons.prems have "run_fields fs data (dict_set ret (fst g) v) errs = Inr (ret', errs')"
        by simp
      from Cons.IH[OF this mem Cons.prems(3)] show ?thesis .
    next
      case (Invalid x)
      with Cons.prems have "run_fields fs data ret (errs @ [(fst g, x)]) = Inr (ret', errs')"
        by simp
      from Cons.IH[OF this mem Cons.prems(3)] show ?thesis .
    next
      case Skip
      with Cons.prems have "run_fields fs data ret errs = Inr (ret', errs')" by simp
      from Cons.IH[OF this mem Cons.prems(3)] show ?thesis .
    next
      case (Raise err)
      with Cons.prems show ?thesis by simp
    qed
  qed
qed

lemma run_fields_no_raise:
  "no_field_raises fs data \<Longrightarrow> \<exists>ret' errs'. run_fields fs data ret errs = Inr (ret', errs')"
proof (induction fs arbitrary: ret errs)
  case Nil
  then show ?case by simp
next
  case (Cons f fs)
  then have rest: "no_field_raises fs data" and f: "\<forall>err. snd f data \<noteq> Raise err"
    by (auto simp: no_field_raises_def)
  show ?case
  proof (cases "snd f data")
    case (Valid v)
    with Cons.IH[OF rest, of "dict_set ret (fst f) v" errs] show ?thesis by simp
  next
    case (Invalid d)
    with Cons.IH[OF rest, of ret "errs @ [(fst f, d)]"] show ?thesis by simp
  next
    case Skip
    with Cons.IH[OF rest, of ret errs] show ?thesis by simp
  next
    case (Raise err)
    with f show ?thesis by simp
  qed
qed

lemma run_fields_other_key:
  "run_fields fs data ret errs = Inr (ret', errs') \<Longrightarrow> k \<notin> fst ` set fs \<Longrightarrow>
   dict_get ret' k = dict_get ret k"
proof (induction fs arbitrary: ret errs)
  case Nil
  then show ?case by simp
next
  case (Cons f fs)
  from Cons.prems(2) have k: "k \<noteq> fst f" "k \<notin> fst ` set fs" by auto
  show ?case
  proof (cases "snd f data")
    case (Valid v)
    with Cons.prems have "run_fields fs data (dict_set ret (fst f) v) errs = Inr (ret', errs')"
      by simp
    from Cons.IH[OF this k(2)] k(1) show ?thesis by (simp add: dict_get_dict_set)
  next
    case (Invalid d)
    with Cons.prems have "run_fields fs data ret (errs @ [(fst f, d)]) = Inr (ret', errs')"
      by simp
    from Cons.IH[OF this k(2)] show ?thesis .
  next
    case Skip
    with Cons.prems have "run_fields fs data ret errs = Inr (ret', errs')" by simp
    from Cons.IH[OF this k(2)] show ?thesis .
  next
    case (Raise err)
    with Cons.prems show ?thesis by simp
  qed
qed

lemma Serializer_invalid_field:
  assumes "f \<in> set fs" "snd f data = Invalid d"
  shows "(\<exists>err. Serializer_to_internal_value fs data = Inl err) \<and>
         (no_field_raises fs data \<longrightarrow>
            (\<exists>errors. Serializer_to_internal_value fs data = Inl (ValidationError (Fields errors)) \<and>
               (fst f, d) \<in> set errors))"
proof (cases "run_fields fs data [] []")
  case (Inl err)
  moreover have "\<not> no_field_raises fs data"
    using run_fields_no_raise[of fs data "[]" "[]"] Inl by auto
  ultimately show ?thesis by (simp add: Serializer_to_internal_value_def)
next
  case (Inr p)
  obtain ret errors where p: "p = (ret, errors)" by (cases p)
  from run_fields_invalid_recorded[OF Inr[unfolded p] assms]
  have m: "(fst f, d) \<in> set errors" .
  then have "errors \<noteq> []" by auto
  with Inr p m show ?thesis by (auto simp: Serializer_to_internal_value_def)
qed

section \<open>An empty ingredient list\<close>

lemma to_internal_value_iterable:
  assumes "dict_get data ''tags'' = Some tags" "py_iter tags = Inr items"
  shows "RecipeCreateSerializer_to_internal_value super_tiv data =
     super_tiv (dict_set (filter (\<lambda>kv. fst kv \<noteq> ''tags'') data) ''tags''
                  (PList (map wrap_tag items)))"
  using dict_pop_present[OF assms(1)] assms(2)
  by (simp add: RecipeCreateSerializer_to_internal_value_def)

lemma to_internal_value_cases:
  obtains (missing) "dict_get data ''tags'' = None"
      "RecipeCreateSerializer_to_internal_value super_tiv data = Inl KeyError"
  | (not_iterable) tags where "dict_get data ''tags'' = Some tags"
      "py_iter tags = Inl TypeError"
      "RecipeCreateSerializer_to_internal_value super_tiv data = Inl TypeError"
  | (iterable) tags items where "dict_get data ''tags'' = Some tags"
      "py_iter tags = Inr items"
      "RecipeCreateSerializer_to_internal_value super_tiv data =
         super_tiv (dict_set (filter (\<lambda>kv. fst kv \<noteq> ''tags'') data) ''tags''
                  (PList (map wrap_tag items)))"
proof (cases "dict_get data ''tags''")
  case None
  with dict_pop_absent[OF None] show ?thesis
    by (intro missing) (simp_all add: RecipeCreateSerializer_to_internal_value_def)
next
  case (Some tags)
  show ?thesis
  proof (cases "py_iter tags")
    case (Inl err)
    then have "err = TypeError" by (cases tags) simp_all
    with Inl Some dict_pop_present[OF Some] show ?thesis
      by (intro not_iterable[of tags])
         (simp_all add: RecipeCreateSerializer_to_internal_value_def)
  next
    case (Inr items)
    with Some to_internal_value_iterable[OF Some Inr] show ?thesis
      by (intro iterable[of tags items]) simp_all
  qed
qed

lemma ingredients_field_empty:
  assumes "dict_get data ''ingredients'' = Some (PList [])"
  shows "ingredients_field e s data = Invalid (Code ''invalid'')"
  using assms
  by (simp add: ingredients_field_def required_value_def ListSerializer_to_internal_value_def
      validate_ingredients_def)

lemma ingredients_field_listed: "(''ingredients'', ingredients_field e s) \<in> set (Recipe_fields e s b)"
  by (simp add: Recipe_fields_def)

text \<open>
  Claim C2 where the payload reaches the validation of its fields. A recipe-creation
  request whose ingredient list is empty never succeeds and writes nothing: the store
  after it is the store before it. When the payload lists its tags as an iterable and no
  field raises another exception, the failure is the validation error of the serializer,
  and it holds the error of \<^verbatim>\<open>validate_ingredients\<close> under \<^verbatim>\<open>ingredients\<close>.
\<close>

theorem empty_ingredients_rejected:
  assumes "dict_get data ''ingredients'' = Some (PList [])"
  shows "(\<exists>err. create_recipe e ctx data s = (Inl err, s)) \<and>
         (\<forall>tags items.
            dict_get data ''tags'' = Some tags \<and> py_iter tags = Inr items \<and>
            no_field_raises (Recipe_fields e s True)
              (dict_set (filter (\<lambda>kv. fst kv \<noteq> ''tags'') data) ''tags''
                 (PList (map wrap_tag items))) \<longrightarrow>
            (\<exists>errors. create_recipe e ctx data s = (Inl (ValidationError (Fields errors)), s) \<and>
               (''ingredients'', Code ''invalid'') \<in> set errors))"
proof -
  let ?super = "Serializer_to_internal_value (Recipe_fields e s True)"
  have inv: "snd (''ingredients'', ingredients_field e s) data' = Invalid (Code ''invalid'')"
    if "dict_get data' ''ingredients'' = Some (PList [])" for data'
    using ingredients_field_empty[OF that] by simp
  have norm: "dict_get (dict_set (filter (\<lambda>kv. fst kv \<noteq> ''tags'') data) ''tags'' v)
      ''ingredients'' = Some (PList [])" for v
    using assms by (simp add: dict_get_dict_set dict_get_filter_other)
  have first: "\<exists>err. create_recipe e ctx data s = (Inl err, s)"
  proof (cases rule: to_internal_value_cases[of data ?super])
    case missing
    then show ?thesis by (simp add: create_recipe_def RecipeCreateSerializer_validate_def)
  next
    case (not_iterable tags)
    then show ?thesis by (simp add: create_recipe_def RecipeCreateSerializer_validate_def)
  next
    case (iterable tags items)
    from Serializer_invalid_field[OF ingredients_field_listed inv[OF norm]]
    obtain err where "?super (dict_set (filter (\<lambda>kv. fst kv \<noteq> ''tags'') data) ''tags''
                  (PList (map wrap_tag items))) = Inl err"
      by blast
    with iterable(3) show ?thesis
      by (simp add: create_recipe_def RecipeCreateSerializer_validate_def)
  qed
  have second: "\<exists>errors. create_recipe e ctx data s = (Inl (ValidationError (Fields errors)), s) \<and>
               (''ingredients'', Code ''invalid'') \<in> set errors"
    if h: "dict_get data ''tags'' = Some tags" "py_iter tags = Inr items"
      "no_field_raises (Recipe_fields e s True)
              (dict_set (filter (\<lambda>kv. fst kv \<noteq> ''tags'') data) ''tags''
                 (PList (map wrap_tag items)))" for tags items
  proof -
    from Serializer_invalid_field[OF ingredients_field_listed inv[OF norm]] h(3)
    obtain errors where "?super (dict_set (filter (\<lambda>kv. fst kv \<noteq> ''tags'') data) ''tags''
                  (PList (map wrap_tag items))) = Inl (ValidationError (Fields errors))"
      "(''ingredients'', Code ''invalid'') \<in> set errors"
      by fastforce
    with to_internal_value_iterable[OF h(1,2), of ?super] show ?thesis
      by (simp add: create_recipe_def RecipeCreateSerializer_validate_def)
  qed
  from first second show ?thesis by blast
qed


lemma image_aGk:
  "Base64ImageField_to_internal_value (ImageField_to_internal_value (\<lambda>f. True))
     (Json (PStr ''data:image/png;base64,aGk=''))
   = Valid \<lparr>cf_name = ''temp.png'', cf_content = [104, 105]\<rparr>"
  by (simp add: Base64ImageField_to_internal_value_def ImageField_to_internal_value_def
      FileField_to_internal_value_def startswith_def str_split_def b64decode_def
      b64_value_def b64_alphabet_def)

text \<open>
  Claim C2 at a payload with an empty ingredient list and no \<^verbatim>\<open>tags\<close> key. The pop of
  \<^verbatim>\<open>tags\<close> raises \<^verbatim>\<open>KeyError\<close> before \<^verbatim>\<open>validate_ingredients\<close> is reached, so the request does
  not end in the validation error that the claim asks for (no row is written here
  either).
\<close>

theorem empty_ingredients_without_tags_KeyError:
  "dict_get untagged_payload ''ingredients'' = Some (PList []) \<and>
   create_recipe example_env example_context untagged_payload example_store
     = (Inl KeyError, example_store) \<and>
   (\<forall>d. KeyError \<noteq> ValidationError d)"
  by (simp add: untagged_payload_def dict_get_def create_recipe_def
      RecipeCreateSerializer_validate_def RecipeCreateSerializer_to_internal_value_def
      dict_pop_def)

theorem empty_ingredients_rejected_witness:
  "dict_get toast_payload ''ingredients'' = Some (PList []) \<and>
   create_recipe example_env example_context toast_payload example_store
     = (Inl (ValidationError (Fields [(''ingredients'', Code ''invalid'')])), example_store)"
proof -
  let ?data' = "dict_set (filter (\<lambda>kv. fst kv \<noteq> ''tags'') toast_payload) ''tags''
                 (PList (map wrap_tag [PInt 1]))"
  let ?n = "[(''ingredients'', PList []),
      (''name'', PStr ''toast''),
      (''image'', PStr ''data:image/png;base64,aGk=''),
      (''text'', PStr ''toast the bread''),
      (''cooking_time'', PInt 3),
      (''tags'', PList [PDict [(''id'', PInt 1)]])]"
  have g: "dict_get toast_payload ''ingredients'' = Some (PList [])"
    by (simp add: toast_payload_def dict_get_def)
  have t: "dict_get toast_payload ''tags'' = Some (PList [PInt 1])"
    by (simp add: toast_payload_def dict_get_def)
  have d: "?data' = ?n"
    by (simp add: toast_payload_def wrap_tag_def)
  have tags: "tags_field example_env example_store ?n = Valid (VTags [breakfast])"
    using lookup_breakfast
    by (simp add: tags_field_def dict_get_def required_value_def
        ListSerializer_to_internal_value_def TagsInRecipeSerializer_run_validation_def)
  have ingredients: "ingredients_field example_env example_store ?n = Invalid (Code ''invalid'')"
    by (rule ingredients_field_empty) (simp add: dict_get_def)
  have image: "image_field example_env True ?n
      = Valid (VFile \<lparr>cf_name = ''temp.png'', cf_content = [104, 105]\<rparr>)"
    using image_aGk
    by (simp add: image_field_def dict_get_def example_env_def)
  have others: "model_field_of example_env ''is_favorited'' ?n = Skip"
    "model_field_of example_env ''is_in_shopping_cart'' ?n = Skip"
    "model_field_of example_env ''name'' ?n = Valid (VStr ''toast'')"
    "model_field_of example_env ''text'' ?n = Valid (VStr ''toast the bread'')"
    "model_field_of example_env ''cooking_time'' ?n = Valid (VInt 3)"
    by (simp_all add: model_field_of_def example_env_def dict_get_def char_field_def
        integer_field_def)
  have n: "no_field_raises (Recipe_fields example_env example_store True) ?data'"
    unfolding d
    by (simp add: no_field_raises_def Recipe_fields_def tags ingredients image others)
  have run: "run_fields (Recipe_fields example_env example_store True) ?data' [] []
     = Inr ([(''tags'', VTags [breakfast]), (''name'', VStr ''toast''),
             (''image'', VFile \<lparr>cf_name = ''temp.png'', cf_content = [104, 105]\<rparr>),
             (''text'', VStr ''toast the bread''), (''cooking_time'', VInt 3)],
            [(''ingredients'', Code ''invalid'')])"
    unfolding d
    by (simp add: Recipe_fields_def tags ingredients image others)
  from empty_ingredients_rejected[OF g, of example_env example_context example_store] t n
  obtain errors where
    r: "create_recipe example_env example_context toast_payload example_store
          = (Inl (ValidationError (Fields errors)), example_store)"
    by fastforce
  have "create_recipe example_env example_context toast_payload example_store
     = (Inl (ValidationError (Fields [(''ingredients'', Code ''invalid'')])), example_store)"
    using to_internal_value_iterable[OF t, of "[PInt 1]"
        "Serializer_to_internal_value (Recipe_fields example_env example_store True)"] run
    by (simp add: create_recipe_def RecipeCreateSerializer_validate_def
        Serializer_to_internal_value_def)
  with g r show ?thesis by simp
qed

section \<open>Updating a recipe\<close>

lemma tags_field_Valid:
  assumes "tags_field e s data = Valid v"
  shows "\<exists>ts. v = VTags ts"
proof (cases "required_value (dict_get data ''tags'')")
  case (Inl x)
  with assms show ?thesis by (simp add: tags_field_def)
next
  case (Inr w)
  show ?thesis
  proof (cases "ListSerializer_to_internal_value (TagsInRecipeSerializer_run_validation e s) w")
    case (Inl err)
    with Inr assms have "catch (Inl err :: error + vval) = Valid v" by (simp add: tags_field_def)
    then show ?thesis by (simp add: catch_Valid_iff)
  next
    case r: (Inr ts)
    with Inr assms have "v = VTags ts" by (simp add: tags_field_def)
    then show ?thesis by blast
  qed
qed

lemma tags_field_not_Skip: "tags_field e s data \<noteq> Skip"
proof (cases "required_value (dict_get data ''tags'')")
  case (Inl x)
  then show ?thesis by (simp add: tags_field_def)
next
  case (Inr w)
  then show ?thesis by (simp add: tags_field_def catch_not_Skip)
qed

lemma validated_data_holds_tags:
  assumes "Serializer_to_internal_value (Recipe_fields e s b) data = Inr validated_data"
  shows "\<exists>ts. dict_get validated_data ''tags'' = Some (VTags ts)"
proof -
  let ?rest = "tl (Recipe_fields e s b)"
  have fs: "Recipe_fields e s b = (''tags'', tags_field e s) # ?rest"
    by (simp add: Recipe_fields_def)
  have names: "''tags'' \<notin> fst ` set ?rest"
    by (simp add: Recipe_fields_def)
  from assms obtain errors where
    run: "run_fields (Recipe_fields e s b) data [] [] = Inr (validated_data, errors)"
    and none: "errors = []"
    by (auto simp: Serializer_to_internal_value_def split: sum.splits if_splits)
  show ?thesis
  proof (cases "tags_field e s data")
    case (Valid v)
    then obtain ts where v: "v = VTags ts" using tags_field_Valid by blast
    from run Valid v have "run_fields ?rest data [(''tags'', VTags ts)] [] = Inr (validated_data, errors)"
      by (subst (asm) fs) simp
    from run_fields_other_key[OF this names] show ?thesis
      by (simp add: dict_get_def)
  next
    case (Invalid d)
    with run have "run_fields ?rest data [] [(''tags'', d)] = Inr (validated_data, errors)"
      by (subst (asm) fs) simp
    from run_fields_errors_grow[OF this] none show ?thesis by simp
  next
    case Skip
    with tags_field_not_Skip show ?thesis by blast
  next
    case (Raise err)
    with run show ?thesis by (subst (asm) fs) simp
  qed
qed

lemma update_validated_cases:
  obtains (rejected) err where "RecipeUpdateSerializer_validate e s data = Inl err"
  | (validated) validated_data ts where
      "RecipeUpdateSerializer_validate e s data = Inr validated_data"
      "dict_get validated_data ''tags'' = Some (VTags ts)"
proof (cases "RecipeUpdateSerializer_validate e s data")
  case (Inl err)
  then show ?thesis by (rule rejected)
next
  case (Inr validated_data)
  let ?super = "Serializer_to_internal_value (Recipe_fields e s False)"
  have "\<exists>ts. dict_get validated_data ''tags'' = Some (VTags ts)"
  proof (cases rule: to_internal_value_cases[of data ?super])
    case missing
    with Inr show ?thesis by (simp add: RecipeUpdateSerializer_validate_def)
  next
    case (not_iterable tags)
    with Inr show ?thesis by (simp add: RecipeUpdateSerializer_validate_def)
  next
    case (iterable tags items)
    with Inr have "?super (dict_set (filter (\<lambda>kv. fst kv \<noteq> ''tags'') data) ''tags''
                  (PList (map wrap_tag items))) = Inr validated_data"
      by (simp add: RecipeUpdateSerializer_validate_def)
    then show ?thesis by (rule validated_data_holds_tags)
  qed
  with Inr show ?thesis using validated by blast
qed

text \<open>
  No update changes the store: a payload that fails validation reaches no write, and one
  that passes it carries its tags as a list, which the framework's update refuses.
\<close>

lemma update_applies_nothing:
  "\<exists>err. update_recipe e instance data s = (Inl err, s)"
proof (cases rule: update_validated_cases[of e s data])
  case (rejected err)
  then show ?thesis by (simp add: update_recipe_def)
next
  case (validated validated_data ts)
  then have "has_nested_write validated_data" by (simp add: has_nested_write_def)
  with validated(1) show ?thesis
    by (simp add: update_recipe_def ModelSerializer_update_def)
qed

text \<open>
  The update serializer differs from the creation serializer in the \<^verbatim>\<open>image\<close> field alone: a
  payload that has the key is validated as on creation, and without the key the field is
  skipped where creation reports it as required.
\<close>

lemma run_fields_cong:
  "map fst fs = map fst gs \<Longrightarrow> map (\<lambda>f. snd f data) fs = map (\<lambda>g. snd g data) gs \<Longrightarrow>
   run_fields fs data ret errs = run_fields gs data ret errs"
proof (induction fs arbitrary: gs ret errs)
  case Nil
  then show ?case by simp
next
  case (Cons f fs)
  then obtain g gs' where gs: "gs = g # gs'" by (cases gs) auto
  with Cons.prems have h: "fst f = fst g" "snd f data = snd g data"
    "map fst fs = map fst gs'" "map (\<lambda>f. snd f data) fs = map (\<lambda>g. snd g data) gs'"
    by auto
  show ?case
    unfolding gs using h(1,2) Cons.IH[OF h(3,4)]
    by (cases "snd g data") simp_all
qed

lemma image_field_present:
  "dict_get data ''image'' \<noteq> None \<Longrightarrow> image_field e False data = image_field e True data"
  by (auto simp: image_field_def split: option.splits)

lemma image_field_absent:
  "dict_get data ''image'' = None \<Longrightarrow>
   image_field e False data = Skip \<and> image_field e True data = Invalid (Code ''required'')"
  by (simp add: image_field_def)

lemma update_validates_as_create:
  assumes "dict_get data ''image'' \<noteq> None"
  shows "RecipeUpdateSerializer_validate e s data = RecipeCreateSerializer_validate e s data"
proof -
  have same: "Serializer_to_internal_value (Recipe_fields e s False) d
      = Serializer_to_internal_value (Recipe_fields e s True) d"
    if "dict_get d ''image'' \<noteq> None" for d
  proof -
    have "run_fields (Recipe_fields e s False) d [] [] = run_fields (Recipe_fields e s True) d [] []"
      by (rule run_fields_cong) (simp_all add: Recipe_fields_def image_field_present[OF that])
    then show ?thesis by (simp add: Serializer_to_internal_value_def)
  qed
  have keep: "dict_get (dict_set (filter (\<lambda>kv. fst kv \<noteq> ''tags'') data) ''tags'' v) ''image''
      \<noteq> None" for v
    using assms by (simp add: dict_get_dict_set dict_get_filter_other)
  show ?thesis
  proof (cases "dict_pop data ''tags''")
    case (Inl err)
    then show ?thesis
      by (simp add: RecipeUpdateSerializer_validate_def RecipeCreateSerializer_validate_def
          RecipeCreateSerializer_to_internal_value_def)
  next
    case (Inr p)
    obtain tags data1 where p: "p = (tags, data1)" by (cases p)
    from Inr p have d1: "data1 = filter (\<lambda>kv. fst kv \<noteq> ''tags'') data"
      by (auto simp: dict_pop_def split: option.splits)
    show ?thesis
    proof (cases "py_iter tags")
      case e: (Inl err)
      with Inr p show ?thesis
        by (simp add: RecipeUpdateSerializer_validate_def RecipeCreateSerializer_validate_def
            RecipeCreateSerializer_to_internal_value_def)
    next
      case i: (Inr items)
      with Inr p d1 same[OF keep] show ?thesis
        by (simp add: RecipeUpdateSerializer_validate_def RecipeCreateSerializer_validate_def
            RecipeCreateSerializer_to_internal_value_def)
    qed
  qed
qed

lemma validate_crepes:
  "RecipeUpdateSerializer_validate example_env pancake_store crepes_payload
     = Inr [(''tags'', VTags [breakfast]),
            (''ingredients'', VIngredients [(salt, Some 300)]),
            (''name'', VStr ''crepes''),
            (''text'', VStr ''fry thin''),
            (''cooking_time'', VInt 15)]"
proof -
  let ?n = "[(''ingredients'', PList [PDict [(''id'', PInt 5), (''amount'', PInt 300)]]),
      (''name'', PStr ''crepes''),
      (''text'', PStr ''fry thin''),
      (''cooking_time'', PInt 15),
      (''tags'', PList [PDict [(''id'', PInt 1)]])]"
  have t: "dict_get crepes_payload ''tags'' = Some (PList [PInt 1])"
    by (simp add: crepes_payload_def dict_get_def)
  have d: "dict_set (filter (\<lambda>kv. fst kv \<noteq> ''tags'') crepes_payload) ''tags''
                 (PList (map wrap_tag [PInt 1])) = ?n"
    by (simp add: crepes_payload_def wrap_tag_def)
  have tags: "tags_field example_env pancake_store ?n = Valid (VTags [breakfast])"
    by (simp add: tags_field_def dict_get_def required_value_def
        ListSerializer_to_internal_value_def TagsInRecipeSerializer_run_validation_def
        PrimaryKeyRelatedField_to_internal_value_def queryset_get_def
        pancake_store_def breakfast_def)
  have ingredients: "ingredients_field example_env pancake_store ?n
      = Valid (VIngredients [(salt, Some 300)])"
    by (simp add: ingredients_field_def dict_get_def required_value_def
        ListSerializer_to_internal_value_def IngredientInRecipeSerializer_run_validation_def
        PrimaryKeyRelatedField_to_internal_value_def queryset_get_def
        validate_ingredients_def integer_field_def example_env_def
        pancake_store_def salt_def)
  have image: "image_field example_env False ?n = Skip"
    by (simp add: image_field_def dict_get_def)
  have others: "model_field_of example_env ''is_favorited'' ?n = Skip"
    "model_field_of example_env ''is_in_shopping_cart'' ?n = Skip"
    "model_field_of example_env ''name'' ?n = Valid (VStr ''crepes'')"
    "model_field_of example_env ''text'' ?n = Valid (VStr ''fry thin'')"
    "model_field_of example_env ''cooking_time'' ?n = Valid (VInt 15)"
    by (simp_all add: model_field_of_def example_env_def dict_get_def char_field_def
        integer_field_def)
  have run: "run_fields (Recipe_fields example_env pancake_store False) ?n [] []
     = Inr ([(''tags'', VTags [breakfast]),
            (''ingredients'', VIngredients [(salt, Some 300)]),
            (''name'', VStr ''crepes''),
            (''text'', VStr ''fry thin''),
            (''cooking_time'', VInt 15)], [])"
    by (simp add: Recipe_fields_def tags ingredients image others)
  from to_internal_value_iterable[OF t, of "[PInt 1]"
        "Serializer_to_internal_value (Recipe_fields example_env pancake_store False)"]
  show ?thesis
    unfolding d by (simp add: RecipeUpdateSerializer_validate_def
        Serializer_to_internal_value_def run)
qed

text \<open>
  Claim C8 at a payload of the creation shape without the \<^verbatim>\<open>image\<close> key, sent as an update
  of the pancake recipe. Validation accepts it, the image being optional, and gives the
  validated data; the update then ends in \<^verbatim>\<open>AssertionError\<close> and the store is as before:
  the name, the text, the cooking time, the tags and the ingredients of the request are
  not applied.
\<close>

theorem update_without_image_AssertionError:
  "dict_get crepes_payload ''image'' = None \<and>
   RecipeUpdateSerializer_validate example_env pancake_store crepes_payload
     = Inr [(''tags'', VTags [breakfast]),
            (''ingredients'', VIngredients [(salt, Some 300)]),
            (''name'', VStr ''crepes''),
            (''text'', VStr ''fry thin''),
            (''cooking_time'', VInt 15)] \<and>
   update_recipe example_env pancake_recipe crepes_payload pancake_store
     = (Inl AssertionError, pancake_store)"
  using validate_crepes
  by (simp add: update_recipe_def ModelSerializer_update_def has_nested_write_def
      dict_get_def crepes_payload_def)

section \<open>Sending a representation back\<close>

lemma run_children_all_invalid:
  "\<forall>item \<in> set items. child item = Inl (ValidationError d) \<Longrightarrow>
   run_children child items ret errs = Inr (ret, errs @ replicate (length items) d)"
  by (induction items arbitrary: errs) simp_all

lemma ListSerializer_all_invalid:
  assumes "\<forall>item \<in> set items. child item = Inl (ValidationError d)"
      and "items \<noteq> []" and "d \<noteq> Fields []"
  shows "ListSerializer_to_internal_value child (PList items)
           = Inl (ValidationError (Items (replicate (length items) d)))"
proof -
  from assms(2) obtain n where n: "length items = Suc n" by (cases items) auto
  show ?thesis
    using run_children_all_invalid[OF assms(1), of "[]" "[]"] assms(3)
    by (simp add: ListSerializer_to_internal_value_def n)
qed

lemma tag_child_rejects_rendered:
  "TagsInRecipeSerializer_run_validation e s
     (wrap_tag (TagsInRecipeSerializer_to_representation t))
   = Inl (ValidationError (Fields [(''id'', Code ''incorrect_type'')]))"
  by (simp add: tag_child_wrapped TagsInRecipeSerializer_to_representation_def
      PrimaryKeyRelatedField_to_internal_value_def)

lemma representation_tags:
  assumes "Recipe_to_representation e ctx s author r = Inr representation"
  shows "dict_get representation ''tags''
           = Some (PList (map TagsInRecipeSerializer_to_representation (recipe_tags s r)))"
  using assms
  by (auto simp: Recipe_to_representation_def dict_get_def split: sum.splits)

lemma tags_field_rendered:
  assumes "dict_get data ''tags''
             = Some (PList (map wrap_tag (map TagsInRecipeSerializer_to_representation ts)))"
      and "ts \<noteq> []"
  shows "tags_field e s data
           = Invalid (Items (replicate (length ts) (Fields [(''id'', Code ''incorrect_type'')])))"
proof -
  let ?items = "map wrap_tag (map TagsInRecipeSerializer_to_representation ts)"
  have "\<forall>item \<in> set ?items. TagsInRecipeSerializer_run_validation e s item
          = Inl (ValidationError (Fields [(''id'', Code ''incorrect_type'')]))"
    by (auto simp: tag_child_rejects_rendered)
  moreover from assms(2) have "?items \<noteq> []" by simp
  ultimately have "ListSerializer_to_internal_value (TagsInRecipeSerializer_run_validation e s)
      (PList ?items)
      = Inl (ValidationError (Items (replicate (length ?items)
               (Fields [(''id'', Code ''incorrect_type'')]))))"
    by (rule ListSerializer_all_invalid) simp
  with assms(1) show ?thesis
    by (simp add: tags_field_def required_value_def)
qed

lemma tags_field_listed: "(''tags'', tags_field e s) \<in> set (Recipe_fields e s b)"
  by (simp add: Recipe_fields_def)

text \<open>
  Claim C7, as the code has it. The representation of a recipe renders each tag as an
  object with \<^verbatim>\<open>id\<close>, \<^verbatim>\<open>name\<close> and \<^verbatim>\<open>slug\<close>, while the deserializer reads \<^verbatim>\<open>tags\<close> as bare
  identifiers and wraps each one as \<^verbatim>\<open>{'id': value}\<close>. Sent back as an update, the
  representation of a recipe that has a tag is rejected by validation and the store stays
  as it is; when no field raises another exception the validation error holds, under
  \<^verbatim>\<open>tags\<close>, one \<^verbatim>\<open>incorrect_type\<close> error of the \<^verbatim>\<open>id\<close> field per tag.
\<close>

theorem resubmitted_representation_rejected:
  assumes "Recipe_to_representation e ctx s author r = Inr representation"
      and "recipe_tags s r \<noteq> []"
  shows "\<exists>err. RecipeUpdateSerializer_validate e s representation = Inl err \<and>
           update_recipe e r representation s = (Inl err, s) \<and>
           (no_field_raises (Recipe_fields e s False)
              (dict_set (filter (\<lambda>kv. fst kv \<noteq> ''tags'') representation) ''tags''
                 (PList (map wrap_tag
                    (map TagsInRecipeSerializer_to_representation (recipe_tags s r))))) \<longrightarrow>
            (\<exists>errors. err = ValidationError (Fields errors) \<and>
               (''tags'', Items (replicate (length (recipe_tags s r))
                                   (Fields [(''id'', Code ''incorrect_type'')])))
                 \<in> set errors))"
proof -
  let ?rendered = "map TagsInRecipeSerializer_to_representation (recipe_tags s r)"
  let ?data' = "dict_set (filter (\<lambda>kv. fst kv \<noteq> ''tags'') representation) ''tags''
                 (PList (map wrap_tag ?rendered))"
  let ?super = "Serializer_to_internal_value (Recipe_fields e s False)"
  let ?d = "Items (replicate (length (recipe_tags s r))
                     (Fields [(''id'', Code ''incorrect_type'')]))"
  have t: "dict_get representation ''tags'' = Some (PList ?rendered)"
    using assms(1) by (rule representation_tags)
  have v: "RecipeUpdateSerializer_validate e s representation = ?super ?data'"
    using to_internal_value_iterable[OF t, of ?rendered ?super]
    by (simp add: RecipeUpdateSerializer_validate_def)
  have "dict_get ?data' ''tags'' = Some (PList (map wrap_tag ?rendered))"
    by (simp add: dict_get_dict_set)
  from tags_field_rendered[OF this assms(2), of e s]
  have inv: "snd (''tags'', tags_field e s) ?data' = Invalid ?d" by simp
  from Serializer_invalid_field[OF tags_field_listed inv, of False]
  obtain err where
    e1: "?super ?data' = Inl err"
    and e2: "no_field_raises (Recipe_fields e s False) ?data' \<longrightarrow>
       (\<exists>errors. err = ValidationError (Fields errors) \<and> (''tags'', ?d) \<in> set errors)"
    by auto
  from e1 v have "update_recipe e r representation s = (Inl err, s)"
    by (simp add: update_recipe_def)
  with e1 e2 v show ?thesis by auto
qed

lemma render_pancake:
  "Recipe_to_representation example_env example_context pancake_store example_user
     pancake_recipe = Inr pancake_representation"
  by (simp add: Recipe_to_representation_def UserMeSerializer_to_representation_def
      UserSerializer_to_representation_def example_context_def example_user_def
      recipe_tags_def recipe_amounts_def TagsInRecipeSerializer_to_representation_def
      IngredientInRecipeSerializer_to_representation_def pancake_store_def
      pancake_recipe_def breakfast_def salt_def example_env_def example_render_def
      dict_get_def temp_png_def pancake_representation_def)

lemma pancake_tags: "recipe_tags pancake_store pancake_recipe = [breakfast]"
  by (simp add: recipe_tags_def pancake_store_def pancake_recipe_def breakfast_def)

lemma resubmit_pancake:
  "no_field_raises (Recipe_fields example_env pancake_store False)
     (dict_set (filter (\<lambda>kv. fst kv \<noteq> ''tags'') pancake_representation) ''tags''
        (PList (map wrap_tag (map TagsInRecipeSerializer_to_representation [breakfast])))) \<and>
   Serializer_to_internal_value (Recipe_fields example_env pancake_store False)
     (dict_set (filter (\<lambda>kv. fst kv \<noteq> ''tags'') pancake_representation) ''tags''
        (PList (map wrap_tag (map TagsInRecipeSerializer_to_representation [breakfast]))))
   = Inl (ValidationError (Fields
       [(''tags'', Items [Fields [(''id'', Code ''incorrect_type'')]]),
        (''image'', Code ''invalid'')]))"
proof -
  let ?n = "[(''id'', PInt 1),
      (''author'', PDict [(''email'', PStr ''cook@example.org''), (''id'', PInt 3),
                          (''username'', PStr ''cook''), (''first_name'', PStr ''Ann''),
                          (''last_name'', PStr ''Lee''), (''is_subscribed'', PBool False),
                          (''avatar'', PNone)]),
      (''ingredients'', PList [PDict [(''id'', PInt 5), (''name'', PStr ''salt''),
                                      (''measurement_unit'', PStr ''g''),
                                      (''amount'', PInt 200)]]),
      (''is_favorited'', PBool False),
      (''is_in_shopping_cart'', PBool False),
      (''name'', PStr ''pancakes''),
      (''image'', PStr ''/media/temp.png''),
      (''text'', PStr ''fry''),
      (''cooking_time'', PInt 20),
      (''tags'', PList [PDict [(''id'', PDict [(''id'', PInt 1), (''name'', PStr ''breakfast''),
                               (''slug'', PStr ''breakfast'')])]])]"
  have d: "dict_set (filter (\<lambda>kv. fst kv \<noteq> ''tags'') pancake_representation) ''tags''
        (PList (map wrap_tag (map TagsInRecipeSerializer_to_representation [breakfast]))) = ?n"
    by (simp add: pancake_representation_def wrap_tag_def breakfast_def
        TagsInRecipeSerializer_to_representation_def)
  have tags: "tags_field example_env pancake_store ?n
      = Invalid (Items [Fields [(''id'', Code ''incorrect_type'')]])"
    by (simp add: tags_field_def dict_get_def required_value_def
        ListSerializer_to_internal_value_def TagsInRecipeSerializer_run_validation_def
        PrimaryKeyRelatedField_to_internal_value_def)
  have ingredients: "ingredients_field example_env pancake_store ?n
      = Valid (VIngredients [(salt, Some 200)])"
    by (simp add: ingredients_field_def dict_get_def required_value_def
        ListSerializer_to_internal_value_def IngredientInRecipeSerializer_run_validation_def
        PrimaryKeyRelatedField_to_internal_value_def queryset_get_def
        validate_ingredients_def integer_field_def example_env_def
        pancake_store_def salt_def)
  have image: "image_field example_env False ?n = Invalid (Code ''invalid'')"
    by (simp add: image_field_def dict_get_def Base64ImageField_to_internal_value_def
        ImageField_to_internal_value_def FileField_to_internal_value_def startswith_def)
  have others: "model_field_of example_env ''is_favorited'' ?n = Skip"
    "model_field_of example_env ''is_in_shopping_cart'' ?n = Skip"
    "model_field_of example_env ''name'' ?n = Valid (VStr ''pancakes'')"
    "model_field_of example_env ''text'' ?n = Valid (VStr ''fry'')"
    "model_field_of example_env ''cooking_time'' ?n = Valid (VInt 20)"
    by (simp_all add: model_field_of_def example_env_def dict_get_def char_field_def
        integer_field_def)
  have n: "no_field_raises (Recipe_fields example_env pancake_store False) ?n"
    by (simp add: no_field_raises_def Recipe_fields_def tags ingredients image others)
  have run: "run_fields (Recipe_fields example_env pancake_store False) ?n [] []
     = Inr ([(''ingredients'', VIngredients [(salt, Some 200)]),
             (''name'', VStr ''pancakes''),
             (''text'', VStr ''fry''),
             (''cooking_time'', VInt 20)],
            [(''tags'', Items [Fields [(''id'', Code ''incorrect_type'')]]),
             (''image'', Code ''invalid'')])"
    by (simp add: Recipe_fields_def tags ingredients image others)
  show ?thesis
    unfolding d using n run by (simp add: Serializer_to_internal_value_def)
qed

text \<open>
  Claim C7 as stated fails: the representation of the pancake recipe, sent back unchanged
  as an update, does not succeed. Its tag object is not an identifier and the URL of its
  image is not a file.
\<close>

theorem resubmitted_pancake_rejected:
  "Recipe_to_representation example_env example_context pancake_store example_user
     pancake_recipe = Inr pancake_representation \<and>
   update_recipe example_env pancake_recipe pancake_representation pancake_store
     = (Inl (ValidationError (Fields
          [(''tags'', Items [Fields [(''id'', Code ''incorrect_type'')]]),
           (''image'', Code ''invalid'')])), pancake_store)"
proof -
  have t: "dict_get pancake_representation ''tags''
      = Some (PList (map TagsInRecipeSerializer_to_representation [breakfast]))"
    by (simp add: pancake_representation_def dict_get_def breakfast_def
        TagsInRecipeSerializer_to_representation_def)
  from to_internal_value_iterable[OF t,
      of "map TagsInRecipeSerializer_to_representation [breakfast]"
         "Serializer_to_internal_value (Recipe_fields example_env pancake_store False)"]
    resubmit_pancake
  have "RecipeUpdateSerializer_validate example_env pancake_store pancake_representation
     = Inl (ValidationError (Fields
          [(''tags'', Items [Fields [(''id'', Code ''incorrect_type'')]]),
           (''image'', Code ''invalid'')]))"
    by (simp add: RecipeUpdateSerializer_validate_def)
  with render_pancake show ?thesis by (simp add: update_recipe_def)
qed

theorem resubmitted_representation_rejected_witness:
  "Recipe_to_representation example_env example_context pancake_store example_user
     pancake_recipe = Inr pancake_representation \<and>
   recipe_tags pancake_store pancake_recipe = [breakfast] \<and>
   (\<exists>errors.
      RecipeUpdateSerializer_validate example_env pancake_store pancake_representation
        = Inl (ValidationError (Fields errors)) \<and>
      update_recipe example_env pancake_recipe pancake_representation pancake_store
        = (Inl (ValidationError (Fields errors)), pancake_store) \<and>
      (''tags'', Items [Fields [(''id'', Code ''incorrect_type'')]]) \<in> set errors)"
proof -
  have ne: "recipe_tags pancake_store pancake_recipe \<noteq> []"
    by (simp add: pancake_tags)
  from resubmitted_representation_rejected[OF render_pancake ne] resubmit_pancake
  show ?thesis
    using render_pancake by (auto simp: pancake_tags)
qed

section \<open>A pair that one request lists twice\<close>

lemma validate_brine:
  "RecipeCreateSerializer_validate example_env example_store brine_payload
     = Inr brine_validated_data"
proof -
  let ?n = "[(''ingredients'', PList [PDict [(''id'', PInt 5), (''amount'', PInt 200)],
                               PDict [(''id'', PInt 5), (''amount'', PInt 200)]]),
      (''name'', PStr ''brine''),
      (''image'', PStr ''data:image/png;base64,aGk=''),
      (''text'', PStr ''stir''),
      (''cooking_time'', PInt 5),
      (''tags'', PList [PDict [(''id'', PInt 1)]])]"
  have t: "dict_get brine_payload ''tags'' = Some (PList [PInt 1])"
    by (simp add: brine_payload_def dict_get_def)
  have d: "dict_set (filter (\<lambda>kv. fst kv \<noteq> ''tags'') brine_payload) ''tags''
                 (PList (map wrap_tag [PInt 1])) = ?n"
    by (simp add: brine_payload_def wrap_tag_def)
  have tags: "tags_field example_env example_store ?n = Valid (VTags [breakfast])"
    using lookup_breakfast
    by (simp add: tags_field_def dict_get_def required_value_def
        ListSerializer_to_internal_value_def TagsInRecipeSerializer_run_validation_def)
  have ingredients: "ingredients_field example_env example_store ?n
      = Valid (VIngredients [(salt, Some 200), (salt, Some 200)])"
    by (simp add: ingredients_field_def dict_get_def required_value_def
        ListSerializer_to_internal_value_def IngredientInRecipeSerializer_run_validation_def
        PrimaryKeyRelatedField_to_internal_value_def queryset_get_def
        validate_ingredients_def integer_field_def example_env_def
        example_store_def salt_def)
  have image: "image_field example_env True ?n = Valid (VFile temp_png)"
    using image_aGk
    by (simp add: image_field_def dict_get_def example_env_def temp_png_def)
  have others: "model_field_of example_env ''is_favorited'' ?n = Skip"
    "model_field_of example_env ''is_in_shopping_cart'' ?n = Skip"
    "model_field_of example_env ''name'' ?n = Valid (VStr ''brine'')"
    "model_field_of example_env ''text'' ?n = Valid (VStr ''stir'')"
    "model_field_of example_env ''cooking_time'' ?n = Valid (VInt 5)"
    by (simp_all add: model_field_of_def example_env_def dict_get_def char_field_def
        integer_field_def)
  have run: "run_fields (Recipe_fields example_env example_store True) ?n [] []
     = Inr (brine_validated_data, [])"
    by (simp add: Recipe_fields_def tags ingredients image others brine_validated_data_def)
  from to_internal_value_iterable[OF t, of "[PInt 1]"
        "Serializer_to_internal_value (Recipe_fields example_env example_store True)"]
  show ?thesis
    unfolding d by (simp add: RecipeCreateSerializer_validate_def
        Serializer_to_internal_value_def run)
qed

lemma create_brine:
  "RecipeCreateSerializer_create example_context brine_validated_data example_store
     = (Inr brine_recipe, store_after_brine)"
  by (simp add: example_defs create_defs brine_validated_data_def brine_recipe_def
      store_after_brine_def)

lemma create_stew_after_brine:
  "RecipeCreateSerializer_create example_context stew_validated_data store_after_brine
     = (Inr stew_recipe, store_after_brine_and_stew)"
  by (simp add: example_defs create_defs salt_defs brine_recipe_def
      store_after_brine_def store_after_brine_and_stew_def)

text \<open>
  Claim C3 as stated fails. The payload of the brine lists 200 g of salt twice;
  validation accepts it, and creation writes one IngredientInRecipe row per listing. After
  the brine and the stew there is one AmountOfIngredient row for the pair, shared by both
  recipes, but the brine is linked to it by two join rows.
\<close>

theorem pair_listed_twice_two_join_rows:
  "RecipeCreateSerializer_validate example_env example_store brine_payload
     = Inr brine_validated_data \<and>
   RecipeCreateSerializer_create example_context brine_validated_data example_store
     = (Inr brine_recipe, store_after_brine) \<and>
   RecipeCreateSerializer_create example_context stew_validated_data store_after_brine
     = (Inr stew_recipe, store_after_brine_and_stew) \<and>
   filter (aoi_matches 5 200) (AmountOfIngredient_objects store_after_brine_and_stew)
     = [\<lparr>aoi_pk = 1, aoi_ingredient = 5, aoi_amount = 200\<rparr>] \<and>
   iir_count (recipe_pk brine_recipe) 1 store_after_brine_and_stew = 2 \<and>
   iir_count (recipe_pk stew_recipe) 1 store_after_brine_and_stew = 1"
proof -
  have "filter (aoi_matches 5 200) (AmountOfIngredient_objects store_after_brine_and_stew)
     = [\<lparr>aoi_pk = 1, aoi_ingredient = 5, aoi_amount = 200\<rparr>]"
    by (simp add: store_after_brine_and_stew_def aoi_matches_def)
  moreover have "iir_count (recipe_pk brine_recipe) 1 store_after_brine_and_stew = 2"
    by (simp add: iir_count_def store_after_brine_and_stew_def brine_recipe_def)
  moreover have "iir_count (recipe_pk stew_recipe) 1 store_after_brine_and_stew = 1"
    by (simp add: iir_count_def store_after_brine_and_stew_def stew_recipe_def)
  ultimately show ?thesis
    using validate_brine create_brine create_stew_after_brine by (intro conjI)
qed
end
